theory Spec2Isabelle
  imports Main "HOL-Library.Sublist" "HOL-Library.Multiset"
begin

section \<open>Strings of the host language\<close>

text \<open>
  A string is a list of code units, written as \<^typ>\<open>string\<close>: the development covers
  the strings whose code units are below 256, read as the characters U+0000 to
  U+00FF. On these the class \<open>\s\<close> and \<open>trim\<close> know tab, line feed, vertical tab, form
  feed, carriage return, space and the no-break space U+00A0, and \<open>\d\<close> is 0-9.

  Lower-casing maps A-Z and the letters U+00C0 to U+00DE (without the
  multiplication sign U+00D7) to the letter 32 places further on. Upper-casing maps
  the other way, and turns the sharp s U+00DF into "SS". The upper-case forms of the
  micro sign U+00B5 and of U+00FF lie beyond U+00FF, outside the strings of this
  development: the model leaves the two as they are, and a statement that depends on
  upper-casing excludes them.
\<close>

definition asciiUpper :: string where
  "asciiUpper = ''ABCDEFGHIJKLMNOPQRSTUVWXYZ''"

definition asciiLower :: string where
  "asciiLower = ''abcdefghijklmnopqrstuvwxyz''"

definition latin1Upper :: string where
  "latin1Upper =
     [CHR 0xC0, CHR 0xC1, CHR 0xC2, CHR 0xC3, CHR 0xC4, CHR 0xC5, CHR 0xC6, CHR 0xC7,
      CHR 0xC8, CHR 0xC9, CHR 0xCA, CHR 0xCB, CHR 0xCC, CHR 0xCD, CHR 0xCE, CHR 0xCF,
      CHR 0xD0, CHR 0xD1, CHR 0xD2, CHR 0xD3, CHR 0xD4, CHR 0xD5, CHR 0xD6, CHR 0xD8,
      CHR 0xD9, CHR 0xDA, CHR 0xDB, CHR 0xDC, CHR 0xDD, CHR 0xDE]"

definition latin1Lower :: string where
  "latin1Lower =
     [CHR 0xE0, CHR 0xE1, CHR 0xE2, CHR 0xE3, CHR 0xE4, CHR 0xE5, CHR 0xE6, CHR 0xE7,
      CHR 0xE8, CHR 0xE9, CHR 0xEA, CHR 0xEB, CHR 0xEC, CHR 0xED, CHR 0xEE, CHR 0xEF,
      CHR 0xF0, CHR 0xF1, CHR 0xF2, CHR 0xF3, CHR 0xF4, CHR 0xF5, CHR 0xF6, CHR 0xF8,
      CHR 0xF9, CHR 0xFA, CHR 0xFB, CHR 0xFC, CHR 0xFD, CHR 0xFE]"

definition toUpperUnit :: "char \<Rightarrow> string" where
  "toUpperUnit c =
     (if c = CHR 0xDF then ''SS''
      else case map_of (zip (asciiLower @ latin1Lower) (asciiUpper @ latin1Upper)) c of
             Some u \<Rightarrow> [u]
           | None \<Rightarrow> [c])"

definition toLowerChar :: "char \<Rightarrow> char" where
  "toLowerChar c =
     (case map_of (zip (asciiUpper @ latin1Upper) (asciiLower @ latin1Lower)) c of
        Some l \<Rightarrow> l
      | None \<Rightarrow> c)"

definition toUpperCase :: "string \<Rightarrow> string" where
  "toUpperCase s = concat (map toUpperUnit s)"

definition toLowerCase :: "string \<Rightarrow> string" where
  "toLowerCase s = map toLowerChar s"


text \<open>The character classes \<open>[A-Z]\<close>, \<open>\d\<close>, \<open>\s\<close> and \<open>[-_\s]\<close> of the regular expressions.\<close>

definition isUpperAZ :: "char \<Rightarrow> bool" where
  "isUpperAZ c = (c \<in> set asciiUpper)"

definition isDigit :: "char \<Rightarrow> bool" where
  "isDigit c = (c \<in> set ''0123456789'')"

definition isWhiteSpace :: "char \<Rightarrow> bool" where
  "isWhiteSpace c =
     (c \<in> set [CHR 0x09, CHR 0x0A, CHR 0x0B, CHR 0x0C, CHR 0x0D, CHR 0x20, CHR 0xA0])"

definition isTitleSep :: "char \<Rightarrow> bool" where
  "isTitleSep c = (c = CHR ''-'' \<or> c = CHR ''_'' \<or> isWhiteSpace c)"

text \<open>
  \<open>s.includes(t)\<close>: \<open>t\<close> occurs in \<open>s\<close> at some position, tried from left to right.
  The name carries a suffix since the plain one is reserved by the prover.
\<close>

fun includesStr :: "string \<Rightarrow> string \<Rightarrow> bool" where
  "includesStr [] t = (t = [])"
| "includesStr (c # cs) t = (prefix t (c # cs) \<or> includesStr cs t)"

text \<open>\<open>s.endsWith(t)\<close>: the last \<open>t.length\<close> code units of \<open>s\<close> are \<open>t\<close>.\<close>

definition endsWith :: "string \<Rightarrow> string \<Rightarrow> bool" where
  "endsWith s t = (length t \<le> length s \<and> drop (length s - length t) s = t)"

text \<open>\<open>s.trim()\<close> removes white space at both ends.\<close>

definition trim :: "string \<Rightarrow> string" where
  "trim s = rev (dropWhile isWhiteSpace (rev (dropWhile isWhiteSpace s)))"

text \<open>
  \<open>s.split(sep)\<close> for a separator of one code unit: the pieces between the occurrences
  of the separator, one more than there are occurrences. \<open>tok\<close> is the piece being read.
\<close>

fun splitAcc :: "char \<Rightarrow> string \<Rightarrow> string \<Rightarrow> string list" where
  "splitAcc sep tok [] = [tok]"
| "splitAcc sep tok (c # cs) =
     (if c = sep then tok # splitAcc sep [] cs else splitAcc sep (tok @ [c]) cs)"

definition split :: "string \<Rightarrow> char \<Rightarrow> string list" where
  "split s sep = splitAcc sep [] s"

text \<open>
  \<open>s.split(/[cls]+/)\<close> for a character class \<open>cls\<close>: the scan moves right until the
  pattern matches, the match takes the whole run of class members (the quantifier is
  greedy), the piece before the match is emitted and the scan resumes after the run.
  The piece after the last match is emitted at the end, also when it is empty, and
  the empty string gives one empty piece since the pattern does not match it.
\<close>

function splitRuns :: "(char \<Rightarrow> bool) \<Rightarrow> string \<Rightarrow> string \<Rightarrow> string list" where
  "splitRuns cls tok [] = [tok]"
| "splitRuns cls tok (c # cs) =
     (if cls c then tok # splitRuns cls [] (dropWhile cls cs)
      else splitRuns cls (tok @ [c]) cs)"
  by pat_completeness auto
termination
  by (relation "measure (\<lambda>(cls, tok, s). length s)")
     (auto simp: le_imp_less_Suc length_dropWhile_le)

definition splitRegex :: "string \<Rightarrow> (char \<Rightarrow> bool) \<Rightarrow> string list" where
  "splitRegex s cls = splitRuns cls [] s"

text \<open>\<open>xs.join(sep)\<close>, \<open>s.charAt(0)\<close> and \<open>s.slice(1)\<close>.\<close>

fun join :: "string list \<Rightarrow> string \<Rightarrow> string" where
  "join [] sep = []"
| "join [x] sep = x"
| "join (x # y # ys) sep = x @ sep @ join (y # ys) sep"

definition charAt0 :: "string \<Rightarrow> string" where
  "charAt0 s = take 1 s"

definition slice1 :: "string \<Rightarrow> string" where
  "slice1 s = drop 1 s"

text \<open>\<open>/^[A-Z]/.test(s)\<close>: the first code unit exists and is an upper-case letter.\<close>

definition testLeadingUpper :: "string \<Rightarrow> bool" where
  "testLeadingUpper s = (case s of [] \<Rightarrow> False | c # _ \<Rightarrow> isUpperAZ c)"

section \<open>Text analysis: titles\<close>

text \<open>
  \<open>extractTitle\<close> of the scanner service and of the manifest updater (the two bodies are
  the same). The guard \<open>firstLine && ...\<close> is false on the empty string.
\<close>

definition extractTitle :: "string \<Rightarrow> string \<Rightarrow> string" where
  "extractTitle firstLine fileName =
     (if firstLine \<noteq> [] \<and> length firstLine < 100 \<and> length firstLine > 0
         \<and> testLeadingUpper firstLine
         \<and> \<not> includesStr firstLine ''http''
         \<and> \<not> includesStr firstLine ''www''
      then firstLine
      else join
             (map (\<lambda>word. toUpperCase (charAt0 word) @ toLowerCase (slice1 word))
                  (splitRegex fileName isTitleSep))
             '' '')"

subsection \<open>The title rule in the words of the specification\<close>





section \<open>Text analysis: the blurb\<close>

text \<open>A template literal prints a number in decimal, without leading zeros.\<close>

definition digitChar :: "nat \<Rightarrow> char" where
  "digitChar d = ''0123456789'' ! (d mod 10)"

function showNat :: "nat \<Rightarrow> string" where
  "showNat n = (if n < 10 then [digitChar n] else showNat (n div 10) @ [digitChar (n mod 10)])"
  by pat_completeness auto
termination
  by (relation "measure id") auto

declare showNat.simps [simp del]

definition newline :: char where
  "newline = CHR 0x0A"

text \<open>
  \<open>content.match(/\d{4}-\d{2}-\d{2}/)\<close> is used as a truth value: the pattern is tried at
  every position from the left.
\<close>

definition matchDateAt :: "string \<Rightarrow> bool" where
  "matchDateAt s =
     (10 \<le> length s
      \<and> list_all isDigit (take 4 s) \<and> s ! 4 = CHR ''-''
      \<and> list_all isDigit (take 2 (drop 5 s)) \<and> s ! 7 = CHR ''-''
      \<and> list_all isDigit (take 2 (drop 8 s)))"

fun matchDate :: "string \<Rightarrow> bool" where
  "matchDate [] = False"
| "matchDate (c # cs) = (matchDateAt (c # cs) \<or> matchDate cs)"

text \<open>
  \<open>generateFileInfo\<close> of the scanner service and of the manifest updater (the two bodies
  are the same). The file name is not used.
\<close>

definition generateFileInfo :: "string \<Rightarrow> string \<Rightarrow> string" where
  "generateFileInfo content fileName =
     (let lines = split content newline;
          words = filter (\<lambda>word. length word > 0) (splitRegex (trim content) isWhiteSpace);
          info = (if length lines \<le> 1 then ''Single line text file''
                  else if length lines \<le> 10 then ''Short story with '' @ showNat (length lines) @ '' lines''
                  else if length lines \<le> 50 then ''Medium story with '' @ showNat (length lines) @ '' lines''
                  else ''Long story with '' @ showNat (length lines) @ '' lines'');
          info = info @ '' ('' @ showNat (length words) @ '' words)'';
          info = (if includesStr content ''http'' \<or> includesStr content ''www''
                  then info @ '' - Contains links'' else info);
          info = (if includesStr content ''@''
                  then info @ '' - Contains email addresses'' else info);
          info = (if matchDate content
                  then info @ '' - Contains dates'' else info)
      in info)"

subsection \<open>The blurb in the words of the specification\<close>

text \<open>The number of newline-separated lines: one more than there are newlines.\<close>

definition spec_lineCount :: "string \<Rightarrow> nat" where
  "spec_lineCount content = Suc (count_list content newline)"

text \<open>The four length buckets at the thresholds 1, 10 and 50, and their wording.\<close>

datatype LengthBucket = SingleLine | Short | Medium | Long

definition spec_bucket :: "nat \<Rightarrow> LengthBucket" where
  "spec_bucket n =
     (if n \<le> 1 then SingleLine
      else if 2 \<le> n \<and> n \<le> 10 then Short
      else if 11 \<le> n \<and> n \<le> 50 then Medium
      else Long)"

fun spec_wording :: "LengthBucket \<Rightarrow> nat \<Rightarrow> string" where
  "spec_wording SingleLine n = ''Single line text file''"
| "spec_wording Short n = ''Short story with '' @ showNat n @ '' lines''"
| "spec_wording Medium n = ''Medium story with '' @ showNat n @ '' lines''"
| "spec_wording Long n = ''Long story with '' @ showNat n @ '' lines''"

text \<open>
  The number of words: the maximal runs of characters that are not white space,
  counted at the place where each run starts. The flag says whether the previous
  character was white space (or the text starts here).
\<close>

fun wordStarts :: "bool \<Rightarrow> string \<Rightarrow> nat" where
  "wordStarts afterSpace [] = 0"
| "wordStarts afterSpace (c # cs) =
     (if isWhiteSpace c then wordStarts True cs
      else (if afterSpace then 1 else 0) + wordStarts False cs)"

definition spec_wordCount :: "string \<Rightarrow> nat" where
  "spec_wordCount content = wordStarts True content"

text \<open>
  The three content hints and what triggers them: a link when the text contains
  "http" or "www", an e-mail address when it contains "@", a date when some part of
  the text is four digits, a hyphen, two digits, a hyphen and two digits.
\<close>

definition spec_isDate :: "string \<Rightarrow> bool" where
  "spec_isDate d =
     (\<exists>y m dd. d = y @ ''-'' @ m @ ''-'' @ dd
        \<and> length y = 4 \<and> length m = 2 \<and> length dd = 2
        \<and> list_all isDigit y \<and> list_all isDigit m \<and> list_all isDigit dd)"

definition spec_hasLink :: "string \<Rightarrow> bool" where
  "spec_hasLink content = (sublist ''http'' content \<or> sublist ''www'' content)"

definition spec_hasEmail :: "string \<Rightarrow> bool" where
  "spec_hasEmail content = (CHR ''@'' \<in> set content)"

definition spec_hasDate :: "string \<Rightarrow> bool" where
  "spec_hasDate content = (\<exists>d. sublist d content \<and> spec_isDate d)"

definition spec_hints :: "string \<Rightarrow> string" where
  "spec_hints content =
     (if spec_hasLink content then '' - Contains links'' else [])
     @ (if spec_hasEmail content then '' - Contains email addresses'' else [])
     @ (if spec_hasDate content then '' - Contains dates'' else [])"

text \<open>The blurb without the hints: the wording of the bucket, then the number of words.\<close>

definition spec_blurbBase :: "string \<Rightarrow> string" where
  "spec_blurbBase content =
     spec_wording (spec_bucket (spec_lineCount content)) (spec_lineCount content)
       @ '' ('' @ showNat (spec_wordCount content) @ '' words)''" for content

section \<open>The environment: network, manifest parser and clock\<close>

text \<open>
  A thrown value has a name and a message. A \<open>catch\<close> block of the services turns it
  into the error object of a failure result, stamped with the current time.
\<close>

record Exn =
  name :: string
  message :: string

record ErrorInfo =
  message :: string
  type :: string
  timestamp :: string

datatype ('d, 'm) Result =
  Success (data: 'd) (metadata: 'm)
| Failure (error: ErrorInfo)

text \<open>
  \<open>fetch\<close> either rejects (a network failure) or answers with a response that has the
  \<open>ok\<close> flag, the status and its text, the \<open>last-modified\<close> header when present, and the
  body that \<open>text()\<close> returns. The network is a function of the address: during one
  operation the same address gets the same answer.
\<close>

record Response =
  ok :: bool
  status :: nat
  statusText :: string
  lastModifiedHeader :: "string option"
  body :: string

record DocumentEntry =
  path :: string
  title :: string
  info :: string

text \<open>
  The manifest file, as far as the services read it. \<open>textFiles\<close> may be missing from
  the object, which the optional chaining of the scanner tolerates.
\<close>

record Manifest =
  textFiles :: "DocumentEntry list option"

text \<open>
  \<open>parseManifest\<close> stands for \<open>response.json()\<close> followed by the reads of the entries:
  it is \<open>None\<close> whenever one of them throws (a body that is not JSON, a value without
  properties, a \<open>textFiles\<close> that is not an array, an entry whose \<open>path\<close> is not a
  string). \<open>now\<close> is the reading of the clock, \<open>new Date().toISOString()\<close>.
\<close>

record Env =
  fetch :: "string \<Rightarrow> Exn + Response"
  parseManifest :: "string \<Rightarrow> Manifest option"
  now :: string

definition caught :: "Env \<Rightarrow> Exn \<Rightarrow> ErrorInfo" where
  "caught env e = \<lparr>ErrorInfo.message = Exn.message e, type = name e, timestamp = now env\<rparr>"

definition newError :: "string \<Rightarrow> Exn" where
  "newError msg = \<lparr>name = ''Error'', Exn.message = msg\<rparr>"

text \<open>
  A property read or a method call on \<open>undefined\<close> throws a \<open>TypeError\<close> that quotes the
  property (the wording of the message is that of V8; other engines word it
  differently, the name is the same).
\<close>

definition typeErrorUndefined :: "string \<Rightarrow> Exn" where
  "typeErrorUndefined prop =
     \<lparr>name = ''TypeError'',
      Exn.message = ''Cannot read properties of undefined (reading ''
                      @ [CHR 0x27] @ prop @ [CHR 0x27] @ '')''\<rparr>"

section \<open>The text file reader service\<close>

record TextFileData =
  content :: string
  filePath :: string
  fileName :: "string option"
  fileSize :: nat
  lineCount :: nat
  wordCount :: nat
  characterCount :: nat
  timestamp :: string

record TextFileMetadata =
  encoding :: string
  mimeType :: string
  lastModified :: "string option"

text \<open>
  \<open>xs.pop()\<close> on a fresh array: its last element, and \<open>undefined\<close> (here \<open>None\<close>) when
  the array is empty. The reader stores the value as it comes.
\<close>

definition pop :: "'a list \<Rightarrow> 'a option" where
  "pop xs = (case rev xs of [] \<Rightarrow> None | x # _ \<Rightarrow> Some x)"

text \<open>\<open>h || null\<close> on a header value: the empty string counts as absent.\<close>

definition orNull :: "string option \<Rightarrow> string option" where
  "orNull h = (case h of None \<Rightarrow> None | Some v \<Rightarrow> if v = [] then None else Some v)"

text \<open>
  \<open>readTextFile\<close>. The path is a string, so of the first check only the test for the
  empty string is left. Every \<open>throw\<close> is inside the \<open>try\<close> and ends in the failure
  result.
\<close>

definition readTextFile :: "Env \<Rightarrow> string \<Rightarrow> (TextFileData, TextFileMetadata) Result" where
  "readTextFile env filePath =
     (if filePath = [] then Failure (caught env (newError ''Invalid file path provided''))
      else if \<not> endsWith (toLowerCase filePath) ''.txt''
      then Failure (caught env (newError ''File must have .txt extension''))
      else case fetch env filePath of
        Inl e \<Rightarrow> Failure (caught env e)
      | Inr response \<Rightarrow>
          if \<not> ok response
          then Failure (caught env (newError
                 (''Failed to fetch file: '' @ showNat (status response) @ '' '' @ statusText response)))
          else
            (let textContent = body response in
                 Success
                   \<lparr>content = textContent,
                    TextFileData.filePath = filePath,
                    fileName = pop (split filePath CHR ''/''),
                    fileSize = length textContent,
                    lineCount = length (split textContent newline),
                    wordCount = length (filter (\<lambda>word. length word > 0)
                                  (splitRegex (trim textContent) isWhiteSpace)),
                    characterCount = length textContent,
                    timestamp = now env\<rparr>
                   \<lparr>encoding = ''UTF-8'',
                    mimeType = ''text/plain'',
                    lastModified = orNull (lastModifiedHeader response)\<rparr>))"
  for filePath

text \<open>
  Reading a property of the data object that \<open>readTextFile\<close> builds. The object
  literal has the eight keys below; any other name reads as \<open>undefined\<close>.
\<close>

datatype JsValue = JsUndefined | JsString string | JsNumber nat

definition textFileDataProperty :: "TextFileData \<Rightarrow> string \<Rightarrow> JsValue" where
  "textFileDataProperty d key =
     (if key = ''content'' then JsString (TextFileData.content d)
      else if key = ''filePath'' then JsString (TextFileData.filePath d)
      else if key = ''fileName''
      then (case TextFileData.fileName d of None \<Rightarrow> JsUndefined | Some n \<Rightarrow> JsString n)
      else if key = ''fileSize'' then JsNumber (TextFileData.fileSize d)
      else if key = ''lineCount'' then JsNumber (TextFileData.lineCount d)
      else if key = ''wordCount'' then JsNumber (TextFileData.wordCount d)
      else if key = ''characterCount'' then JsNumber (TextFileData.characterCount d)
      else if key = ''timestamp'' then JsString (TextFileData.timestamp d)
      else JsUndefined)"

text \<open>
  \<open>readMultipleTextFiles\<close> reaches \<open>readTextFile\<close> through \<open>this\<close>. The method is static:
  called on the class, \<open>this\<close> is the class; called through the binding that the last
  line of the module exports (\<open>export const { ..., readMultipleTextFiles, ... } =
  TextFileReaderService\<close>), \<open>this\<close> is \<open>undefined\<close>, since class code is strict.
\<close>

datatype Receiver = ThisClass | ThisUndefined

text \<open>The argument is an array of path strings or something that is not an array.\<close>

datatype FilePathsArg = ArrayArg "string list" | NotAnArray

record FailedRead =
  filePath :: string
  error :: string

record MultiReadData =
  successfulReads :: "(TextFileData, TextFileMetadata) Result list"
  failedReads :: "FailedRead list"
  totalFiles :: nat
  successfulCount :: nat
  failedCount :: nat

text \<open>The arrow function \<open>filePath => this.readTextFile(filePath)\<close>.\<close>

definition callReadTextFile ::
  "Receiver \<Rightarrow> Env \<Rightarrow> string \<Rightarrow> Exn + (TextFileData, TextFileMetadata) Result" where
  "callReadTextFile this env filePath =
     (case this of
        ThisUndefined \<Rightarrow> Inl (typeErrorUndefined ''readTextFile'')
      | ThisClass \<Rightarrow> Inr (readTextFile env filePath))"
  for filePath

text \<open>\<open>xs.map(f)\<close> for a callback that may throw: the first throw ends the loop.\<close>

fun mapThrowing :: "('a \<Rightarrow> Exn + 'b) \<Rightarrow> 'a list \<Rightarrow> Exn + 'b list" where
  "mapThrowing f [] = Inr []"
| "mapThrowing f (x # xs) =
     (case f x of
        Inl e \<Rightarrow> Inl e
      | Inr y \<Rightarrow> (case mapThrowing f xs of Inl e \<Rightarrow> Inl e | Inr ys \<Rightarrow> Inr (y # ys)))"

text \<open>
  \<open>Promise.allSettled\<close> gives one outcome per promise. The promise of \<open>readTextFile\<close>
  always fulfils, with the result object, since the whole body is inside its \<open>try\<close>.
\<close>

datatype 'a Settled = Fulfilled 'a | Rejected Exn

definition allSettled :: "'a list \<Rightarrow> 'a Settled list" where
  "allSettled promises = map Fulfilled promises"

text \<open>
  The \<open>forEach\<close> over the outcomes with their index, pushing onto one of the two
  arrays. The outcomes are paired with the paths of the same index.
\<close>

definition forEachResult ::
  "((TextFileData, TextFileMetadata) Result Settled \<times> string) list
   \<Rightarrow> (TextFileData, TextFileMetadata) Result list \<times> FailedRead list
   \<Rightarrow> (TextFileData, TextFileMetadata) Result list \<times> FailedRead list" where
  "forEachResult results =
     fold (\<lambda>(result, filePath) (successfulReads, failedReads).
        case result of
          Fulfilled (Success d m) \<Rightarrow> (successfulReads @ [Success d m], failedReads)
        | Fulfilled (Failure e) \<Rightarrow>
            (successfulReads,
             failedReads @ [\<lparr>FailedRead.filePath = filePath, error = ErrorInfo.message e\<rparr>])
        | Rejected reason \<Rightarrow>
            (successfulReads,
             failedReads @ [\<lparr>FailedRead.filePath = filePath, error = Exn.message reason\<rparr>]))
       results"

definition readMultipleTextFiles ::
  "Receiver \<Rightarrow> Env \<Rightarrow> FilePathsArg \<Rightarrow> (MultiReadData, string) Result" where
  "readMultipleTextFiles this env filePaths =
     (case filePaths of
        NotAnArray \<Rightarrow> Failure (caught env (newError ''filePaths must be an array''))
      | ArrayArg paths \<Rightarrow>
          (case mapThrowing (callReadTextFile this env) paths of
             Inl e \<Rightarrow> Failure (caught env e)
           | Inr promises \<Rightarrow>
               (let results = allSettled promises;
                    (successfulReads, failedReads) = forEachResult (zip results paths) ([], [])
                in Success
                     \<lparr>successfulReads = successfulReads,
                      failedReads = failedReads,
                      totalFiles = length paths,
                      successfulCount = length successfulReads,
                      failedCount = length failedReads\<rparr>
                     (now env))))"

section \<open>The file scanner service\<close>

text \<open>
  The scanner reaches its own methods through the class name, not through \<open>this\<close>, so
  it behaves the same however it is called.
\<close>

record ScanData =
  folderPath :: string
  totalFiles :: nat
  files :: "DocumentEntry list"
  scanTimestamp :: string

record ScanMetadata =
  scanMethod :: string
  environment :: string

record DocumentRecord = DocumentEntry +
  fileName :: string
  fileSize :: nat
  lineCount :: nat
  wordCount :: nat
  characterCount :: nat
  firstLine :: string
  content :: string
  timestamp :: string

text \<open>The hardcoded list of the scanner: one sample document in the folder.\<close>

definition knownTextFiles :: "string \<Rightarrow> DocumentEntry list" where
  "knownTextFiles folderPath =
     [\<lparr>path = folderPath @ ''example.txt'',
       title = ''Example Text File'',
       info = ''Sample text file for testing the TextFileReaderService''\<rparr>]"
  for folderPath

text \<open>The callback of the filter over the entries of the manifest.\<close>

definition isStoryFile :: "DocumentEntry \<Rightarrow> bool" where
  "isStoryFile file =
     (let fileName = toLowerCase (path file)
      in \<not> includesStr fileName ''readme''
         \<and> \<not> includesStr fileName ''manifest''
         \<and> \<not> includesStr fileName ''license''
         \<and> \<not> includesStr fileName ''changelog''
         \<and> \<not> includesStr fileName ''contributing''
         \<and> endsWith (toLowerCase (path file)) ''.txt'')"

text \<open>
  \<open>getTextFilesFromFolder\<close>: the \<open>catch\<close> around the manifest covers the fetch, the
  parse and the filter, and every way out that is not the filtered list returns the
  hardcoded list.
\<close>

definition getTextFilesFromFolder :: "Env \<Rightarrow> string \<Rightarrow> DocumentEntry list" where
  "getTextFilesFromFolder env folderPath =
     (case fetch env (folderPath @ ''file-manifest.json'') of
        Inl e \<Rightarrow> knownTextFiles folderPath
      | Inr manifestResponse \<Rightarrow>
          if ok manifestResponse
          then (case parseManifest env (body manifestResponse) of
                  None \<Rightarrow> knownTextFiles folderPath
                | Some manifest \<Rightarrow>
                    (let storyFiles = (case textFiles manifest of
                                         None \<Rightarrow> []
                                       | Some entries \<Rightarrow> filter isStoryFile entries)
                     in if length storyFiles > 0 then storyFiles else knownTextFiles folderPath))
          else knownTextFiles folderPath)"
  for folderPath

text \<open>\<open>scanTextFiles\<close>: the folder path is a string, so the first check tests for the empty one.\<close>

definition scanTextFiles :: "Env \<Rightarrow> string \<Rightarrow> (ScanData, ScanMetadata) Result" where
  "scanTextFiles env folderPath =
     (if folderPath = [] then Failure (caught env (newError ''Invalid folder path provided''))
      else
        (let normalizedPath = (if endsWith folderPath ''/'' then folderPath else folderPath @ ''/'');
             files = getTextFilesFromFolder env normalizedPath
         in Success
              \<lparr>folderPath = normalizedPath,
               totalFiles = length files,
               files = files,
               scanTimestamp = now env\<rparr>
              \<lparr>scanMethod = ''folder-scan'', environment = ''browser''\<rparr>))"
  for folderPath

text \<open>\<open>s.replace(pat, rep)\<close> with a string pattern replaces its first occurrence.\<close>

fun replaceFirst :: "string \<Rightarrow> string \<Rightarrow> string \<Rightarrow> string" where
  "replaceFirst [] pat rep = (if pat = [] then rep else [])"
| "replaceFirst (c # cs) pat rep =
     (if prefix pat (c # cs) then rep @ drop (length pat) (c # cs)
      else c # replaceFirst cs pat rep)"

text \<open>
  \<open>getFileInfo\<close>. \<open>lines[0]\<close> and the popped path segment are \<open>undefined\<close> on an empty
  array, and the method call on them would throw inside the \<open>try\<close>.
\<close>

definition getFileInfo :: "Env \<Rightarrow> string \<Rightarrow> (DocumentRecord, unit) Result" where
  "getFileInfo env filePath =
     (if filePath = [] then Failure (caught env (newError ''Invalid file path provided''))
      else if \<not> endsWith (toLowerCase filePath) ''.txt''
      then Failure (caught env (newError ''File must have .txt extension''))
      else case fetch env filePath of
        Inl e \<Rightarrow> Failure (caught env e)
      | Inr contentResponse \<Rightarrow>
          if \<not> ok contentResponse
          then Failure (caught env (newError
                 (''Failed to access file: '' @ showNat (status contentResponse)
                    @ '' '' @ statusText contentResponse)))
          else
            (let content = body contentResponse;
                 lines = split content newline
             in case lines of
                  [] \<Rightarrow> Failure (caught env (typeErrorUndefined ''trim''))
                | line0 # _ \<Rightarrow>
                    (let firstLine = trim line0
                     in case pop (split filePath CHR ''/'') of
                          None \<Rightarrow> Failure (caught env (typeErrorUndefined ''replace''))
                        | Some lastSegment \<Rightarrow>
                            (let fileName = replaceFirst lastSegment ''.txt'' [];
                                 title = extractTitle firstLine fileName;
                                 info = generateFileInfo content fileName
                             in Success
                                  \<lparr>path = filePath,
                                   title = title,
                                   info = info,
                                   fileName = fileName,
                                   fileSize = length content,
                                   lineCount = length lines,
                                   wordCount = length (filter (\<lambda>word. length word > 0)
                                                 (splitRegex (trim content) isWhiteSpace)),
                                   characterCount = length content,
                                   firstLine = firstLine,
                                   content = content,
                                   timestamp = now env\<rparr>
                                  ()))))"
  for filePath

section \<open>The stories page\<close>

text \<open>
  The state of the page, and \<open>loadStories\<close>: it scans the stories folder, asks for the
  details of every entry, keeps the records of the entries whose details arrived, and
  sets the error only when the scan itself failed. \<open>Promise.all\<close> is over promises
  that all fulfil, so it gives their values in order.
\<close>

record StoriesState =
  stories :: "DocumentRecord list"
  loading :: bool
  error :: "string option"

definition loadStories :: "Env \<Rightarrow> StoriesState \<Rightarrow> StoriesState" where
  "loadStories env state =
     (let state = state\<lparr>loading := True\<rparr>;
          state = state\<lparr>StoriesState.error := None\<rparr>;
          scanResult = scanTextFiles env ''./src/StoryTxt/''
      in case scanResult of
           Success scanData _ \<Rightarrow>
             (let detailedStories =
                    map (\<lambda>file. case getFileInfo env (path file) of
                                   Success fileData _ \<Rightarrow> Some fileData
                                 | Failure _ \<Rightarrow> None)
                        (files scanData);
                  validStories = map the (filter (\<lambda>story. story \<noteq> None) detailedStories);
                  state = state\<lparr>stories := validStories\<rparr>
              in state\<lparr>loading := False\<rparr>)
         | Failure scanError \<Rightarrow>
             (let state = state\<lparr>StoriesState.error := Some (ErrorInfo.message scanError)\<rparr>
              in state\<lparr>loading := False\<rparr>))"

section \<open>The catalogue in the words of the specification\<close>

text \<open>
  A path is excluded from the listing when, compared without regard to case, it
  contains one of the administrative words or does not end with ".txt".
\<close>

definition spec_adminWords :: "string list" where
  "spec_adminWords = [''readme'', ''manifest'', ''license'', ''changelog'', ''contributing'']"

definition spec_excluded :: "string \<Rightarrow> bool" where
  "spec_excluded p =
     (list_ex (\<lambda>w. sublist w (toLowerCase p)) spec_adminWords
      \<or> \<not> suffix ''.txt'' (toLowerCase p))"

text \<open>
  The manifest of a folder is reachable when its fetch answers with an ok response
  whose body parses; it is unavailable when the fetch throws or answers not ok.
\<close>

definition spec_reachableManifest :: "Env \<Rightarrow> string \<Rightarrow> Manifest option" where
  "spec_reachableManifest env folder =
     (case fetch env (folder @ ''file-manifest.json'') of
        Inl _ \<Rightarrow> None
      | Inr r \<Rightarrow> if ok r then parseManifest env (body r) else None)"

definition spec_manifestUnavailable :: "Env \<Rightarrow> string \<Rightarrow> bool" where
  "spec_manifestUnavailable env folder =
     (case fetch env (folder @ ''file-manifest.json'') of
        Inl _ \<Rightarrow> True
      | Inr r \<Rightarrow> \<not> ok r)"

text \<open>The content of a document when its fetch succeeds.\<close>

definition spec_fetched :: "Env \<Rightarrow> string \<Rightarrow> string option" where
  "spec_fetched env p =
     (case fetch env p of
        Inl _ \<Rightarrow> None
      | Inr r \<Rightarrow> if ok r then Some (body r) else None)"

text \<open>The trimmed first newline-separated line of a content.\<close>

definition spec_firstLine :: "string \<Rightarrow> string" where
  "spec_firstLine c = trim (takeWhile (\<lambda>x. x \<noteq> newline) c)"

text \<open>
  The kinds of failure of the catalogue. The services tag every failure with the
  name of the thrown value, which is "Error" for each of their own throws, so the
  kind is read from the message.
\<close>

datatype CatalogErrorKind = InvalidInput | InvalidExtension | FetchError

definition spec_kind :: "ErrorInfo \<Rightarrow> CatalogErrorKind option" where
  "spec_kind e =
     (if ErrorInfo.message e = ''Invalid file path provided''
         \<or> ErrorInfo.message e = ''Invalid folder path provided'' then Some InvalidInput
      else if ErrorInfo.message e = ''File must have .txt extension'' then Some InvalidExtension
      else if prefix ''Failed to access file: '' (ErrorInfo.message e)
         \<or> prefix ''Failed to fetch file: '' (ErrorInfo.message e) then Some FetchError
      else None)"

text \<open>A path can be read when \<open>readTextFile\<close> succeeds on it.\<close>

definition spec_readOk :: "Env \<Rightarrow> string \<Rightarrow> bool" where
  "spec_readOk env p = (case readTextFile env p of Success _ _ \<Rightarrow> True | Failure _ \<Rightarrow> False)"

section \<open>Sample environments\<close>

text \<open>
  A stories folder with a manifest of three documents, of which the second cannot be
  fetched, and with an administrative file beside them.
\<close>

definition okResponse :: "string \<Rightarrow> Response" where
  "okResponse b =
     \<lparr>ok = True, status = 200, statusText = ''OK'', lastModifiedHeader = None, body = b\<rparr>"

definition notFound :: Response where
  "notFound =
     \<lparr>ok = False, status = 404, statusText = ''Not Found'', lastModifiedHeader = None, body = []\<rparr>"

definition networkError :: Exn where
  "networkError = \<lparr>name = ''TypeError'', Exn.message = ''Failed to fetch''\<rparr>"

definition entryOne :: DocumentEntry where
  "entryOne = \<lparr>path = ''./src/StoryTxt/one.txt'', title = ''One'', info = ''first''\<rparr>"

definition entryTwo :: DocumentEntry where
  "entryTwo = \<lparr>path = ''./src/StoryTxt/two.txt'', title = ''Two'', info = ''second''\<rparr>"

definition entryThree :: DocumentEntry where
  "entryThree = \<lparr>path = ''./src/StoryTxt/three.txt'', title = ''Three'', info = ''third''\<rparr>"

definition storiesEnv :: Env where
  "storiesEnv =
     \<lparr>fetch = (\<lambda>p.
        if p = ''./src/StoryTxt/file-manifest.json'' then Inr (okResponse ''three entries'')
        else if p = ''./src/StoryTxt/one.txt'' then Inr (okResponse ''The First\<newline>line two'')
        else if p = ''./src/StoryTxt/two.txt'' then Inr notFound
        else if p = ''./src/StoryTxt/three.txt'' then Inr (okResponse ''third, on 2024-01-01'')
        else Inl networkError),
      parseManifest = (\<lambda>b.
        if b = ''three entries'' then Some \<lparr>textFiles = Some [entryOne, entryTwo, entryThree]\<rparr>
        else None),
      now = ''2024-01-01T00:00:00.000Z''\<rparr>"

text \<open>An environment without network: every fetch throws.\<close>

definition offlineEnv :: Env where
  "offlineEnv =
     \<lparr>fetch = (\<lambda>p. Inl networkError),
      parseManifest = (\<lambda>b. None),
      now = ''2024-01-01T00:00:00.000Z''\<rparr>"

text \<open>
  A folder whose own name contains an administrative word. Its manifest lists the
  sample document and a story, and its sample document can be fetched.
\<close>

definition readmeFolderEntry :: DocumentEntry where
  "readmeFolderEntry =
     \<lparr>path = ''./readme/example.txt'',
      title = ''Example Text File'',
      info = ''Sample text file for testing the TextFileReaderService''\<rparr>"

definition readmeFolderEnv :: Env where
  "readmeFolderEnv =
     \<lparr>fetch = (\<lambda>p.
        if p = ''./readme/file-manifest.json'' then Inr (okResponse ''two entries'')
        else if p = ''./readme/example.txt'' then Inr (okResponse ''An Example\<newline>of text'')
        else Inl networkError),
      parseManifest = (\<lambda>b.
        if b = ''two entries''
        then Some \<lparr>textFiles = Some [readmeFolderEntry,
               \<lparr>path = ''./readme/story.txt'', title = ''Story'', info = ''a story''\<rparr>]\<rparr>
        else None),
      now = ''2024-01-01T00:00:00.000Z''\<rparr>"

text \<open>A stories folder whose manifest lists administrative files only.\<close>

definition adminOnlyEnv :: Env where
  "adminOnlyEnv =
     \<lparr>fetch = (\<lambda>p.
        if p = ''./src/StoryTxt/file-manifest.json'' then Inr (okResponse ''admin only'')
        else Inl networkError),
      parseManifest = (\<lambda>b.
        if b = ''admin only''
        then Some \<lparr>textFiles = Some
               [\<lparr>path = ''./docs/README.txt'', title = ''Readme'', info = ''about''\<rparr>,
                \<lparr>path = ''./src/StoryTxt/notes.md'', title = ''Notes'', info = ''notes''\<rparr>]\<rparr>
        else None),
      now = ''2024-01-01T00:00:00.000Z''\<rparr>"

text \<open>
  A stories folder with one document whose first line starts with a no-break space
  (U+00A0) and has another one between its two words.
\<close>

definition nbspEnv :: Env where
  "nbspEnv =
     \<lparr>fetch = (\<lambda>p.
        if p = ''./src/StoryTxt/nbsp.txt''
        then Inr (okResponse ([CHR 0xA0] @ ''Title'' @ [CHR 0xA0] @ ''here\<newline>more''))
        else Inl networkError),
      parseManifest = (\<lambda>b. None),
      now = ''2024-01-01T00:00:00.000Z''\<rparr>"

definition initialState :: StoriesState where
  "initialState = \<lparr>stories = [], loading = True, error = None\<rparr>"

text \<open>
  A stories folder without manifest (every request but the one for the sample
  document answers 404).
\<close>

definition noManifestEnv :: Env where
  "noManifestEnv =
     \<lparr>fetch = (\<lambda>p.
        if p = ''./src/StoryTxt/example.txt'' then Inr (okResponse ''Example\<newline>text'')
        else Inr notFound),
      parseManifest = (\<lambda>b. None),
      now = ''2024-01-01T00:00:00.000Z''\<rparr>"

section \<open>Facts about the string primitives\<close>

text \<open>Lower-casing at the letters, digits and punctuation of the sample paths.\<close>

lemma toLowerChar_ascii:
  "toLowerChar CHR ''a'' = CHR ''a''" "toLowerChar CHR ''b'' = CHR ''b''"
  "toLowerChar CHR ''c'' = CHR ''c''" "toLowerChar CHR ''d'' = CHR ''d''"
  "toLowerChar CHR ''e'' = CHR ''e''" "toLowerChar CHR ''f'' = CHR ''f''"
  "toLowerChar CHR ''g'' = CHR ''g''" "toLowerChar CHR ''h'' = CHR ''h''"
  "toLowerChar CHR ''i'' = CHR ''i''" "toLowerChar CHR ''j'' = CHR ''j''"
  "toLowerChar CHR ''k'' = CHR ''k''" "toLowerChar CHR ''l'' = CHR ''l''"
  "toLowerChar CHR ''m'' = CHR ''m''" "toLowerChar CHR ''n'' = CHR ''n''"
  "toLowerChar CHR ''o'' = CHR ''o''" "toLowerChar CHR ''p'' = CHR ''p''"
  "toLowerChar CHR ''q'' = CHR ''q''" "toLowerChar CHR ''r'' = CHR ''r''"
  "toLowerChar CHR ''s'' = CHR ''s''" "toLowerChar CHR ''t'' = CHR ''t''"
  "toLowerChar CHR ''u'' = CHR ''u''" "toLowerChar CHR ''v'' = CHR ''v''"
  "toLowerChar CHR ''w'' = CHR ''w''" "toLowerChar CHR ''x'' = CHR ''x''"
  "toLowerChar CHR ''y'' = CHR ''y''" "toLowerChar CHR ''z'' = CHR ''z''"
  "toLowerChar CHR ''0'' = CHR ''0''" "toLowerChar CHR ''1'' = CHR ''1''"
  "toLowerChar CHR ''2'' = CHR ''2''" "toLowerChar CHR ''3'' = CHR ''3''"
  "toLowerChar CHR ''4'' = CHR ''4''" "toLowerChar CHR ''5'' = CHR ''5''"
  "toLowerChar CHR ''6'' = CHR ''6''" "toLowerChar CHR ''7'' = CHR ''7''"
  "toLowerChar CHR ''8'' = CHR ''8''" "toLowerChar CHR ''9'' = CHR ''9''"
  "toLowerChar CHR ''.'' = CHR ''.''" "toLowerChar CHR ''/'' = CHR ''/''"
  "toLowerChar CHR ''-'' = CHR ''-''" "toLowerChar CHR ''_'' = CHR ''_''"
  "toLowerChar CHR '' '' = CHR '' ''" "toLowerChar CHR ''A'' = CHR ''a''"
  "toLowerChar CHR ''B'' = CHR ''b''" "toLowerChar CHR ''C'' = CHR ''c''"
  "toLowerChar CHR ''D'' = CHR ''d''" "toLowerChar CHR ''E'' = CHR ''e''"
  "toLowerChar CHR ''F'' = CHR ''f''" "toLowerChar CHR ''G'' = CHR ''g''"
  "toLowerChar CHR ''H'' = CHR ''h''" "toLowerChar CHR ''I'' = CHR ''i''"
  "toLowerChar CHR ''J'' = CHR ''j''" "toLowerChar CHR ''K'' = CHR ''k''"
  "toLowerChar CHR ''L'' = CHR ''l''" "toLowerChar CHR ''M'' = CHR ''m''"
  "toLowerChar CHR ''N'' = CHR ''n''" "toLowerChar CHR ''O'' = CHR ''o''"
  "toLowerChar CHR ''P'' = CHR ''p''" "toLowerChar CHR ''Q'' = CHR ''q''"
  "toLowerChar CHR ''R'' = CHR ''r''" "toLowerChar CHR ''S'' = CHR ''s''"
  "toLowerChar CHR ''T'' = CHR ''t''" "toLowerChar CHR ''U'' = CHR ''u''"
  "toLowerChar CHR ''V'' = CHR ''v''" "toLowerChar CHR ''W'' = CHR ''w''"
  "toLowerChar CHR ''X'' = CHR ''x''" "toLowerChar CHR ''Y'' = CHR ''y''"
  "toLowerChar CHR ''Z'' = CHR ''z''"
  by (simp_all add: toLowerChar_def asciiUpper_def asciiLower_def latin1Upper_def latin1Lower_def)

lemma includes_sublist: "includesStr s t \<longleftrightarrow> sublist t s"
proof (induction s)
  case Nil
  show ?case by simp
next
  case (Cons c cs)
  show ?case
  proof (cases t)
    case Nil
    then show ?thesis by simp
  next
    case (Cons a as)
    with Cons.IH show ?thesis by (simp add: sublist_Cons_right)
  qed
qed

lemma endsWith_suffix: "endsWith s t \<longleftrightarrow> suffix t s"
proof
  assume "endsWith s t"
  then have "s = take (length s - length t) s @ t"
    by (metis append_take_drop_id endsWith_def)
  then show "suffix t s" by (rule suffixI)
next
  assume "suffix t s"
  then obtain p where "s = p @ t" by (auto simp: suffix_def)
  then show "endsWith s t" by (simp add: endsWith_def)
qed










section \<open>Facts about the blurb\<close>

lemma length_splitAcc: "length (splitAcc sep tok s) = Suc (count_list s sep)"
  by (induction s arbitrary: tok) simp_all

lemma length_split: "length (split s sep) = Suc (count_list s sep)"
  by (simp add: split_def length_splitAcc)

lemma split_not_Nil: "split s sep \<noteq> []"
  using length_split [of s sep] by auto

lemma wordStarts_dropWhile:
  "wordStarts True (dropWhile isWhiteSpace s) = wordStarts True s"
  by (induction s) simp_all

lemma wordStarts_spaces: "list_all isWhiteSpace t \<Longrightarrow> wordStarts b t = 0"
  by (induction t arbitrary: b) simp_all

lemma wordStarts_append_spaces:
  "list_all isWhiteSpace t \<Longrightarrow> wordStarts b (s @ t) = wordStarts b s"
  by (induction s arbitrary: b) (simp_all add: wordStarts_spaces)

lemma wordStarts_trim: "wordStarts True (trim s) = wordStarts True s"
proof -
  let ?u = "dropWhile isWhiteSpace s"
  have "?u = rev (dropWhile isWhiteSpace (rev ?u)) @ rev (takeWhile isWhiteSpace (rev ?u))"
    by (metis rev_append rev_rev_ident takeWhile_dropWhile_id)
  moreover have "list_all isWhiteSpace (rev (takeWhile isWhiteSpace (rev ?u)))"
    by (auto simp: list_all_iff dest: set_takeWhileD)
  ultimately have "wordStarts True ?u = wordStarts True (trim s)"
    unfolding trim_def by (metis wordStarts_append_spaces)
  then show ?thesis by (simp add: wordStarts_dropWhile)
qed

lemma count_words_splitRuns:
  "cls = isWhiteSpace \<Longrightarrow>
   length (filter (\<lambda>word. length word > 0) (splitRuns cls tok s)) =
     (if tok = [] then wordStarts True s else Suc (wordStarts False s))"
proof (induction cls tok s rule: splitRuns.induct)
  case (1 cls tok)
  show ?case by simp
next
  case (2 cls tok c cs)
  show ?case
  proof (cases "isWhiteSpace c")
    case True
    with "2.IH"(1) "2.prems" show ?thesis by (simp add: wordStarts_dropWhile)
  next
    case False
    with "2.IH"(2) "2.prems" show ?thesis by simp
  qed
qed

lemma wordCount_spec:
  "length (filter (\<lambda>word. length word > 0) (splitRegex (trim s) isWhiteSpace)) = spec_wordCount s"
  using count_words_splitRuns [OF refl, of "[]" "trim s"]
  by (simp add: splitRegex_def wordStarts_trim spec_wordCount_def)

lemma includesStr_single: "includesStr s [a] \<longleftrightarrow> a \<in> set s"
  by (induction s) auto

lemma matchDateAt_spec:
  "matchDateAt s \<longleftrightarrow> (\<exists>d rest. s = d @ rest \<and> spec_isDate d)"
proof
  assume m: "matchDateAt s"
  then have "10 \<le> length s" by (simp add: matchDateAt_def)
  then obtain a b c d e f g h i j rest where s: "s = a # b # c # d # e # f # g # h # i # j # rest"
    by (auto simp: eval_nat_numeral Suc_le_length_iff)
  have "spec_isDate [a, b, c, d, e, f, g, h, i, j]"
    unfolding spec_isDate_def
    using m unfolding s matchDateAt_def
    by (intro exI [of _ "[a, b, c, d]"] exI [of _ "[f, g]"] exI [of _ "[i, j]"]) (simp add: eval_nat_numeral)
  then show "\<exists>d rest. s = d @ rest \<and> spec_isDate d"
    using s by (intro exI [of _ "[a, b, c, d, e, f, g, h, i, j]"] exI [of _ rest]) simp
next
  assume "\<exists>d rest. s = d @ rest \<and> spec_isDate d"
  then obtain d rest y m dd where s: "s = d @ rest" and d: "d = y @ ''-'' @ m @ ''-'' @ dd"
    and len: "length y = 4" "length m = 2" "length dd = 2"
    and dig: "list_all isDigit y" "list_all isDigit m" "list_all isDigit dd"
    by (auto simp: spec_isDate_def)
  from len obtain y1 y2 y3 y4 m1 m2 d1 d2 where
    "y = [y1, y2, y3, y4]" "m = [m1, m2]" "dd = [d1, d2]"
    by (auto simp: eval_nat_numeral length_Suc_conv)
  with dig show "matchDateAt s"
    by (simp add: s d matchDateAt_def eval_nat_numeral)
qed

lemma matchDate_somewhere:
  "matchDate s \<longleftrightarrow> (\<exists>ps ss. s = ps @ ss \<and> matchDateAt ss)"
proof (induction s)
  case Nil
  show ?case by (simp add: matchDateAt_def)
next
  case (Cons c cs)
  show ?case
    unfolding matchDate.simps Cons.IH
    by (auto simp: Cons_eq_append_conv)
qed

lemma matchDate_spec: "matchDate s \<longleftrightarrow> spec_hasDate s"
  unfolding matchDate_somewhere matchDateAt_spec spec_hasDate_def sublist_def
  by (metis append.assoc)

lemma includesStr_at: "includesStr c ''@'' \<longleftrightarrow> spec_hasEmail c"
  by (simp only: includesStr_single spec_hasEmail_def)

lemma includesStr_link:
  "includesStr c ''http'' \<or> includesStr c ''www'' \<longleftrightarrow> spec_hasLink c"
  by (simp only: includes_sublist spec_hasLink_def)

lemma hints_spec:
  "(if includesStr c ''http'' \<or> includesStr c ''www'' then '' - Contains links'' else [])
    @ (if includesStr c ''@'' then '' - Contains email addresses'' else [])
    @ (if matchDate c then '' - Contains dates'' else []) = spec_hints c"
  by (simp only: includesStr_at includesStr_link matchDate_spec spec_hints_def)

lemma generateFileInfo_parts:
  "generateFileInfo content fileName = spec_blurbBase content @ spec_hints content"
  for content fileName
proof -
  have base: "(if length (split content newline) \<le> 1 then ''Single line text file''
        else if length (split content newline) \<le> 10
          then ''Short story with '' @ showNat (length (split content newline)) @ '' lines''
        else if length (split content newline) \<le> 50
          then ''Medium story with '' @ showNat (length (split content newline)) @ '' lines''
        else ''Long story with '' @ showNat (length (split content newline)) @ '' lines'')
      = spec_wording (spec_bucket (spec_lineCount content)) (spec_lineCount content)"
    by (simp add: length_split spec_lineCount_def spec_bucket_def)
  show ?thesis
    unfolding generateFileInfo_def Let_def hints_spec [symmetric] spec_blurbBase_def
      base [symmetric] wordCount_spec [symmetric]
    by (simp del: includesStr.simps)
qed



section \<open>Titles\<close>



section \<open>Blurbs\<close>

lemma showNat_small:
  "showNat 1 = ''1''" "showNat 2 = ''2''" "showNat 8 = ''8''" "showNat 10 = ''10''" "showNat 11 = ''11''"
  "showNat 50 = ''50''" "showNat 51 = ''51''" "showNat 0 = ''0''" "showNat 7 = ''7''"
  "showNat 3 = ''3''"
  by (simp_all add: showNat.simps digitChar_def)

text \<open>
  Claim C2. For every content, the blurb of \<open>generateFileInfo\<close> starts with the wording
  of the length bucket of its number of newline-separated lines, followed at once by
  the number of words in parentheses: one line (or fewer) gives the single-line
  wording, 2 to 10 lines the short one, 11 to 50 the medium one, 51 or more the long
  one. The number of words is the number of maximal runs of characters that are not
  white space, which is what trimming, splitting on white space and dropping the
  empty pieces counts. At exactly 1, 10, 11, 50 and 51 lines the blurb starts as the
  specification lists.
\<close>

theorem generateFileInfo_bucket_words:
  "prefix (spec_blurbBase content) (generateFileInfo content fileName)
   \<and> (spec_lineCount content \<le> 1 \<longrightarrow>
        prefix (''Single line text file ('' @ showNat (spec_wordCount content) @ '' words)'')
          (generateFileInfo content fileName))
   \<and> (2 \<le> spec_lineCount content \<and> spec_lineCount content \<le> 10 \<longrightarrow>
        prefix (''Short story with '' @ showNat (spec_lineCount content) @ '' lines (''
                  @ showNat (spec_wordCount content) @ '' words)'')
          (generateFileInfo content fileName))
   \<and> (11 \<le> spec_lineCount content \<and> spec_lineCount content \<le> 50 \<longrightarrow>
        prefix (''Medium story with '' @ showNat (spec_lineCount content) @ '' lines (''
                  @ showNat (spec_wordCount content) @ '' words)'')
          (generateFileInfo content fileName))
   \<and> (51 \<le> spec_lineCount content \<longrightarrow>
        prefix (''Long story with '' @ showNat (spec_lineCount content) @ '' lines (''
                  @ showNat (spec_wordCount content) @ '' words)'')
          (generateFileInfo content fileName))
   \<and> (spec_lineCount content = 1 \<longrightarrow>
        prefix ''Single line text file ('' (generateFileInfo content fileName))
   \<and> (spec_lineCount content = 10 \<longrightarrow>
        prefix ''Short story with 10 lines ('' (generateFileInfo content fileName))
   \<and> (spec_lineCount content = 11 \<longrightarrow>
        prefix ''Medium story with 11 lines ('' (generateFileInfo content fileName))
   \<and> (spec_lineCount content = 50 \<longrightarrow>
        prefix ''Medium story with 50 lines ('' (generateFileInfo content fileName))
   \<and> (spec_lineCount content = 51 \<longrightarrow>
        prefix ''Long story with 51 lines ('' (generateFileInfo content fileName))"
  for content fileName
  by (simp add: generateFileInfo_parts spec_blurbBase_def spec_bucket_def showNat_small)

theorem generateFileInfo_bucket_words_witness:
  "2 \<le> spec_lineCount ''Once upon a time\<newline>there was a cat''
   \<and> spec_lineCount ''Once upon a time\<newline>there was a cat'' \<le> 10
   \<and> prefix ''Short story with 2 lines (8 words)''
        (generateFileInfo ''Once upon a time\<newline>there was a cat'' ''tale'')
   \<and> spec_lineCount ''all on one line'' = 1
   \<and> prefix ''Single line text file ('' (generateFileInfo ''all on one line'' ''tale'')
   \<and> spec_lineCount (replicate 9 newline) = 10
   \<and> prefix ''Short story with 10 lines ('' (generateFileInfo (replicate 9 newline) ''tale'')
   \<and> spec_lineCount (replicate 10 newline) = 11
   \<and> prefix ''Medium story with 11 lines ('' (generateFileInfo (replicate 10 newline) ''tale'')
   \<and> spec_lineCount (replicate 49 newline) = 50
   \<and> prefix ''Medium story with 50 lines ('' (generateFileInfo (replicate 49 newline) ''tale'')
   \<and> spec_lineCount (replicate 50 newline) = 51
   \<and> prefix ''Long story with 51 lines ('' (generateFileInfo (replicate 50 newline) ''tale'')
   \<and> spec_lineCount (''a'' @ [CHR 0xA0] @ ''b'') \<le> 1
   \<and> prefix ''Single line text file (2 words)''
        (generateFileInfo (''a'' @ [CHR 0xA0] @ ''b'') ''tale'')"
proof -
  have nb: "spec_lineCount (''a'' @ [CHR 0xA0] @ ''b'') \<le> 1"
    by (simp add: spec_lineCount_def newline_def)
  have wb: "spec_wordCount (''a'' @ [CHR 0xA0] @ ''b'') = 2"
    by (simp add: spec_wordCount_def isWhiteSpace_def)
  from generateFileInfo_bucket_words [of "''a'' @ [CHR 0xA0] @ ''b''" "''tale''"] nb
  have "prefix (''Single line text file (''
           @ showNat (spec_wordCount (''a'' @ [CHR 0xA0] @ ''b'')) @ '' words)'')
        (generateFileInfo (''a'' @ [CHR 0xA0] @ ''b'') ''tale'')"
    by blast
  then have g: "prefix ''Single line text file (2 words)''
        (generateFileInfo (''a'' @ [CHR 0xA0] @ ''b'') ''tale'')"
    by (simp only: wb showNat_small) simp
  have n: "spec_lineCount ''Once upon a time\<newline>there was a cat'' = 2"
    by (simp add: spec_lineCount_def newline_def)
  have w: "spec_wordCount ''Once upon a time\<newline>there was a cat'' = 8"
    by (simp add: spec_wordCount_def isWhiteSpace_def)
  have r: "spec_lineCount (replicate k newline) = Suc k" for k
    by (induction k) (simp_all add: spec_lineCount_def)
  have r1: "spec_lineCount ''all on one line'' = 1"
    and r10: "spec_lineCount (replicate 9 newline) = 10"
    and r11: "spec_lineCount (replicate 10 newline) = 11"
    and r50: "spec_lineCount (replicate 49 newline) = 50"
    and r51: "spec_lineCount (replicate 50 newline) = 51"
    using r [of 9] r [of 10] r [of 49] r [of 50]
    by (simp_all add: spec_lineCount_def newline_def)
  have range: "2 \<le> spec_lineCount ''Once upon a time\<newline>there was a cat''
      \<and> spec_lineCount ''Once upon a time\<newline>there was a cat'' \<le> 10"
    by (simp add: n)
  from generateFileInfo_bucket_words [of "''Once upon a time\<newline>there was a cat''" "''tale''"] range
  have "prefix (''Short story with ''
           @ showNat (spec_lineCount ''Once upon a time\<newline>there was a cat'') @ '' lines (''
           @ showNat (spec_wordCount ''Once upon a time\<newline>there was a cat'') @ '' words)'')
        (generateFileInfo ''Once upon a time\<newline>there was a cat'' ''tale'')"
    by blast
  then have a: "prefix ''Short story with 2 lines (8 words)''
        (generateFileInfo ''Once upon a time\<newline>there was a cat'' ''tale'')"
    by (simp add: n w showNat_small)
  from generateFileInfo_bucket_words [of "''all on one line''" "''tale''"] r1
  have b: "prefix ''Single line text file ('' (generateFileInfo ''all on one line'' ''tale'')"
    by blast
  from generateFileInfo_bucket_words [of "replicate 9 newline" "''tale''"] r10
  have c: "prefix ''Short story with 10 lines ('' (generateFileInfo (replicate 9 newline) ''tale'')"
    by blast
  from generateFileInfo_bucket_words [of "replicate 10 newline" "''tale''"] r11
  have d: "prefix ''Medium story with 11 lines ('' (generateFileInfo (replicate 10 newline) ''tale'')"
    by blast
  from generateFileInfo_bucket_words [of "replicate 49 newline" "''tale''"] r50
  have e: "prefix ''Medium story with 50 lines ('' (generateFileInfo (replicate 49 newline) ''tale'')"
    by blast
  from generateFileInfo_bucket_words [of "replicate 50 newline" "''tale''"] r51
  have f: "prefix ''Long story with 51 lines ('' (generateFileInfo (replicate 50 newline) ''tale'')"
    by blast
  from range a b c d e f r1 r10 r11 r50 r51 nb g show ?thesis by blast
qed

text \<open>
  Claim C3. For every content, the blurb is its base followed by the hints, each hint
  present exactly when its own trigger holds, whatever the other two do, and always
  in the order links, e-mail addresses, dates: the links hint when the content
  contains "http" or "www", the e-mail hint when it contains "@", the dates hint when
  some part of it has the shape of a date. A content with all three triggers ends
  with the three hints in that order.
\<close>

theorem generateFileInfo_hints:
  "generateFileInfo content fileName = spec_blurbBase content @ spec_hints content
   \<and> (spec_hasLink content \<and> spec_hasEmail content \<and> spec_hasDate content \<longrightarrow>
        generateFileInfo content fileName = spec_blurbBase content
          @ '' - Contains links'' @ '' - Contains email addresses'' @ '' - Contains dates'')
   \<and> (sublist '' - Contains links'' (spec_hints content) \<longleftrightarrow> spec_hasLink content)
   \<and> (sublist '' - Contains email addresses'' (spec_hints content) \<longleftrightarrow> spec_hasEmail content)
   \<and> (sublist '' - Contains dates'' (spec_hints content) \<longleftrightarrow> spec_hasDate content)"
  for content fileName
proof (intro conjI impI)
  show "generateFileInfo content fileName = spec_blurbBase content @ spec_hints content"
    by (rule generateFileInfo_parts)
next
  assume "spec_hasLink content \<and> spec_hasEmail content \<and> spec_hasDate content"
  then show "generateFileInfo content fileName = spec_blurbBase content
          @ '' - Contains links'' @ '' - Contains email addresses'' @ '' - Contains dates''"
    by (simp add: generateFileInfo_parts spec_hints_def)
next
  show "sublist '' - Contains links'' (spec_hints content) \<longleftrightarrow> spec_hasLink content"
    unfolding includes_sublist [symmetric] spec_hints_def by simp
next
  show "sublist '' - Contains email addresses'' (spec_hints content) \<longleftrightarrow> spec_hasEmail content"
    unfolding includes_sublist [symmetric] spec_hints_def by simp
next
  show "sublist '' - Contains dates'' (spec_hints content) \<longleftrightarrow> spec_hasDate content"
    unfolding includes_sublist [symmetric] spec_hints_def by simp
qed

theorem generateFileInfo_hints_witness:
  "spec_hasLink ''see http://a.b or mail x@y.z by 2024-01-01''
   \<and> spec_hasEmail ''see http://a.b or mail x@y.z by 2024-01-01''
   \<and> spec_hasDate ''see http://a.b or mail x@y.z by 2024-01-01''
   \<and> generateFileInfo ''see http://a.b or mail x@y.z by 2024-01-01'' ''note''
      = ''Single line text file (7 words) - Contains links - Contains email addresses - Contains dates''
   \<and> generateFileInfo (''a'' @ [CHR 0xA0] @ ''b http'') ''note''
      = ''Single line text file (3 words) - Contains links''"
proof -
  let ?c = "''see http://a.b or mail x@y.z by 2024-01-01''"
  have l: "spec_hasLink ?c"
    unfolding includesStr_link [symmetric] by simp
  have e: "spec_hasEmail ?c"
    by (simp add: spec_hasEmail_def)
  have d: "spec_hasDate ?c"
    unfolding matchDate_spec [symmetric] by (simp add: matchDateAt_def isDigit_def)
  have n: "spec_lineCount ?c = 1"
    by (simp add: spec_lineCount_def newline_def)
  have w: "spec_wordCount ?c = 7"
    by (simp add: spec_wordCount_def isWhiteSpace_def)
  have b: "spec_blurbBase ?c = ''Single line text file (7 words)''"
    by (simp add: spec_blurbBase_def n w spec_bucket_def showNat_small)
  from generateFileInfo_hints [of ?c "''note''"] l e d
  have "generateFileInfo ?c ''note'' = spec_blurbBase ?c
          @ '' - Contains links'' @ '' - Contains email addresses'' @ '' - Contains dates''"
    by blast
  with b have full: "generateFileInfo ?c ''note''
      = ''Single line text file (7 words) - Contains links - Contains email addresses - Contains dates''"
    by simp
  let ?s = "''a'' @ [CHR 0xA0] @ ''b http''"
  have ls: "spec_hasLink ?s"
    unfolding includesStr_link [symmetric] by simp
  have es: "\<not> spec_hasEmail ?s"
    by (simp add: spec_hasEmail_def)
  have ds: "\<not> spec_hasDate ?s"
    unfolding matchDate_spec [symmetric] by (simp add: matchDateAt_def isDigit_def)
  have ns: "spec_lineCount ?s = 1"
    by (simp add: spec_lineCount_def newline_def)
  have ws: "spec_wordCount ?s = 3"
    by (simp add: spec_wordCount_def isWhiteSpace_def)
  have bs: "spec_blurbBase ?s = ''Single line text file (3 words)''"
    unfolding spec_blurbBase_def ns ws by (simp add: spec_bucket_def showNat_small)
  from generateFileInfo_hints [of ?s "''note''"]
  have "generateFileInfo ?s ''note'' = spec_blurbBase ?s @ spec_hints ?s" by blast
  then have short: "generateFileInfo ?s ''note'' = ''Single line text file (3 words) - Contains links''"
    by (simp only: bs spec_hints_def ls es ds if_True if_False) simp
  from l e d full short show ?thesis by blast
qed

section \<open>Facts about the services\<close>

lemma isStoryFile_spec: "isStoryFile e \<longleftrightarrow> \<not> spec_excluded (path e)"
  by (simp add: isStoryFile_def spec_excluded_def spec_adminWords_def includes_sublist
      endsWith_suffix Let_def del: includesStr.simps)

lemma isStoryFile_fun: "isStoryFile = (\<lambda>e. \<not> spec_excluded (path e))"
  by (rule ext) (rule isStoryFile_spec)

lemma wordCount_spec_ne:
  "length (filter (\<lambda>word. word \<noteq> []) (splitRegex (trim s) isWhiteSpace)) = spec_wordCount s"
  using wordCount_spec [of s] by simp

lemma getTextFilesFromFolder_spec:
  "getTextFilesFromFolder env folder =
     (case spec_reachableManifest env folder of
        None \<Rightarrow> knownTextFiles folder
      | Some m \<Rightarrow>
          (case filter (\<lambda>e. \<not> spec_excluded (path e))
                  (case textFiles m of None \<Rightarrow> [] | Some es \<Rightarrow> es) of
             [] \<Rightarrow> knownTextFiles folder
           | e # es \<Rightarrow> e # es))"
  by (auto simp: getTextFilesFromFolder_def spec_reachableManifest_def isStoryFile_fun Let_def
      split: sum.splits option.splits list.splits)

lemma splitAcc_first:
  "\<exists>rest. splitAcc sep tok s = (tok @ takeWhile (\<lambda>x. x \<noteq> sep) s) # rest"
proof (induction s arbitrary: tok)
  case Nil
  show ?case by simp
next
  case (Cons a s)
  show ?case
  proof (cases "a = sep")
    case True
    then show ?thesis by simp
  next
    case False
    with Cons [of "tok @ [a]"] show ?thesis by simp
  qed
qed

lemma split_first: "\<exists>rest. split s sep = takeWhile (\<lambda>x. x \<noteq> sep) s # rest"
  using splitAcc_first [of sep "[]" s] by (simp add: split_def)

lemma pop_Some: "xs \<noteq> [] \<Longrightarrow> pop xs = Some (last xs)"
  by (cases xs rule: rev_cases) (simp_all add: pop_def)

lemma pop_split: "pop (split p sep) = Some (last (split p sep))"
  by (simp add: pop_Some split_not_Nil)

lemma splitAcc_no_sep: "sep \<notin> set b \<Longrightarrow> splitAcc sep tok b = [tok @ b]"
  by (induction b arbitrary: tok) auto

lemma splitAcc_not_Nil: "splitAcc sep tok s \<noteq> []"
  using length_splitAcc [of sep tok s] by auto

lemma last_splitAcc_append:
  "sep \<notin> set b \<Longrightarrow> last (splitAcc sep tok (a @ sep # b)) = b"
  by (induction a arbitrary: tok) (simp_all add: splitAcc_no_sep splitAcc_not_Nil)

lemma last_split_append: "sep \<notin> set b \<Longrightarrow> last (split (a @ sep # b) sep) = b"
  by (simp add: split_def last_splitAcc_append)

lemma getFileInfo_fetched:
  assumes "p \<noteq> []" and "endsWith (toLowerCase p) ''.txt''" and "spec_fetched env p = Some c"
  shows "getFileInfo env p =
     Success
       \<lparr>path = p,
        title = extractTitle (spec_firstLine c) (replaceFirst (last (split p CHR ''/'')) ''.txt'' []),
        info = generateFileInfo c (replaceFirst (last (split p CHR ''/'')) ''.txt'' []),
        fileName = replaceFirst (last (split p CHR ''/'')) ''.txt'' [],
        fileSize = length c,
        lineCount = spec_lineCount c,
        wordCount = spec_wordCount c,
        characterCount = length c,
        firstLine = spec_firstLine c,
        content = c,
        timestamp = now env\<rparr> ()"
proof -
  from assms(3) obtain r where r: "fetch env p = Inr r" "ok r" "body r = c"
    by (auto simp: spec_fetched_def split: sum.splits if_splits)
  obtain rest where l: "split c newline = takeWhile (\<lambda>x. x \<noteq> newline) c # rest"
    using split_first by blast
  have n: "length (split c newline) = spec_lineCount c"
    by (simp add: length_split spec_lineCount_def)
  show ?thesis
    using assms(1,2) r n unfolding getFileInfo_def
    by (simp add: Let_def l pop_split wordCount_spec_ne spec_firstLine_def)
qed

lemma getFileInfo_not_fetched:
  "spec_fetched env p = None \<Longrightarrow> \<exists>e. getFileInfo env p = Failure e"
  by (auto simp: getFileInfo_def spec_fetched_def split: sum.splits if_splits)

lemma getFileInfo_Success_D:
  assumes "getFileInfo env p = Success r u"
  shows "p \<noteq> [] \<and> endsWith (toLowerCase p) ''.txt'' \<and> (\<exists>c. spec_fetched env p = Some c)"
proof -
  from assms have a: "p \<noteq> []" and b: "endsWith (toLowerCase p) ''.txt''"
    by (auto simp: getFileInfo_def split: if_splits)
  moreover have "spec_fetched env p \<noteq> None"
    using getFileInfo_not_fetched [of env p] assms by auto
  ultimately show ?thesis by auto
qed

lemma excluded_readme: "spec_excluded ''./docs/README.txt''"
proof -
  have "\<not> isStoryFile \<lparr>path = ''./docs/README.txt'', title = [], info = []\<rparr>"
    by (simp add: isStoryFile_def toLowerCase_def toLowerChar_ascii)
  then show ?thesis by (simp add: isStoryFile_spec)
qed

lemma fallback_not_readme: "folder @ ''example.txt'' \<noteq> ''./docs/README.txt''"
proof
  assume "folder @ ''example.txt'' = ''./docs/README.txt''"
  then have "rev (folder @ ''example.txt'') = rev ''./docs/README.txt''" by (rule arg_cong)
  then show False by simp
qed

lemma not_excluded_txt: "\<not> spec_excluded p \<Longrightarrow> p \<noteq> [] \<and> endsWith (toLowerCase p) ''.txt''"
  by (auto simp: spec_excluded_def endsWith_suffix toLowerCase_def)

lemma deployed_fallback_ok: "\<not> spec_excluded ''./src/StoryTxt/example.txt''"
proof -
  have "isStoryFile \<lparr>path = ''./src/StoryTxt/example.txt'', title = [], info = []\<rparr>"
    by (simp add: isStoryFile_def endsWith_def toLowerCase_def toLowerChar_ascii)
  then show ?thesis by (simp add: isStoryFile_spec)
qed

lemma getTextFilesFromFolder_members:
  assumes "e \<in> set (getTextFilesFromFolder env folder)"
  shows "e \<in> set (knownTextFiles folder)
     \<or> (\<exists>m es. spec_reachableManifest env folder = Some m \<and> textFiles m = Some es
           \<and> e \<in> set es \<and> \<not> spec_excluded (path e))"
proof (cases "spec_reachableManifest env folder")
  case None
  with assms show ?thesis by (simp add: getTextFilesFromFolder_spec)
next
  case (Some m)
  show ?thesis
  proof (cases "filter (\<lambda>e. \<not> spec_excluded (path e)) (case textFiles m of None \<Rightarrow> [] | Some es \<Rightarrow> es)")
    case Nil
    with assms Some show ?thesis by (simp add: getTextFilesFromFolder_spec)
  next
    case (Cons a as)
    with assms Some have "e \<in> set (filter (\<lambda>e. \<not> spec_excluded (path e)) (case textFiles m of None \<Rightarrow> [] | Some es \<Rightarrow> es))"
      by (simp add: getTextFilesFromFolder_spec)
    with Some show ?thesis by (cases "textFiles m") auto
  qed
qed

lemma getFileInfo_path: "getFileInfo env p = Success r u \<Longrightarrow> path r = p"
  using getFileInfo_Success_D [of env p r u] getFileInfo_fetched [of p env]
  by auto

lemma normalized_deployed: "endsWith ''./src/StoryTxt/'' ''/''"
  by (simp add: endsWith_def)

lemma map_the_filter:
  "map the (filter (\<lambda>y. \<exists>r. y = Some r) (map f xs)) = List.map_filter f xs"
  by (induction xs) (auto split: option.splits)

lemma loadStories_spec:
  "loadStories env st =
     st\<lparr>stories := List.map_filter
            (\<lambda>e. case getFileInfo env (path e) of Success r _ \<Rightarrow> Some r | Failure _ \<Rightarrow> None)
            (getTextFilesFromFolder env ''./src/StoryTxt/''),
        loading := False, StoriesState.error := None\<rparr>"
  unfolding loadStories_def scanTextFiles_def
  by (simp add: normalized_deployed Let_def map_the_filter del: endsWith_def)

lemma deployed_entries_ok:
  assumes "e \<in> set (getTextFilesFromFolder env ''./src/StoryTxt/'')"
  shows "\<not> spec_excluded (path e)"
  using getTextFilesFromFolder_members [OF assms] deployed_fallback_ok
  by (auto simp: knownTextFiles_def)

lemma getFileInfo_listed:
  assumes "\<not> spec_excluded p"
  shows "(case getFileInfo env p of Success r _ \<Rightarrow> Some r | Failure _ \<Rightarrow> None) \<noteq> None
           \<longleftrightarrow> spec_fetched env p \<noteq> None"
proof (cases "spec_fetched env p")
  case None
  then show ?thesis using getFileInfo_not_fetched [of env p] by auto
next
  case (Some c)
  then show ?thesis
    using getFileInfo_fetched [of p env c] not_excluded_txt [OF assms] by simp
qed

lemma stories_paths:
  "(\<forall>e \<in> set es. \<not> spec_excluded (path e)) \<Longrightarrow>
   map path (List.map_filter
      (\<lambda>e. case getFileInfo env (path e) of Success r _ \<Rightarrow> Some r | Failure _ \<Rightarrow> None) es)
   = filter (\<lambda>p. spec_fetched env p \<noteq> None) (map path es)"
proof (induction es)
  case Nil
  show ?case by simp
next
  case (Cons e es)
  then have ne: "\<not> spec_excluded (path e)" by simp
  show ?case
  proof (cases "spec_fetched env (path e)")
    case None
    with getFileInfo_not_fetched [of env "path e"] Cons show ?thesis
      by auto
  next
    case (Some c)
    with getFileInfo_fetched [of "path e" env c] not_excluded_txt [OF ne] Cons show ?thesis
      by simp
  qed
qed

section \<open>The listing\<close>

lemma loadStories_stories:
  "stories (loadStories env st) = List.map_filter
            (\<lambda>e. case getFileInfo env (path e) of Success r _ \<Rightarrow> Some r | Failure _ \<Rightarrow> None)
            (getTextFilesFromFolder env ''./src/StoryTxt/'')"
  by (simp add: loadStories_spec)

lemma set_map_filter: "set (List.map_filter f xs) = {y. \<exists>x \<in> set xs. f x = Some y}"
  by (induction xs) (auto split: option.splits)

lemma stories_member:
  "r \<in> set (stories (loadStories env st)) \<longleftrightarrow>
     (\<exists>e \<in> set (getTextFilesFromFolder env ''./src/StoryTxt/''). \<exists>u. getFileInfo env (path e) = Success r u)"
proof -
  have eq: "(case getFileInfo env (path e) of Success x _ \<Rightarrow> Some x | Failure _ \<Rightarrow> None) = Some r
          \<longleftrightarrow> (\<exists>u. getFileInfo env (path e) = Success r u)" for e
    by (cases "getFileInfo env (path e)") auto
  show ?thesis
    unfolding loadStories_stories set_map_filter by (simp add: eq)
qed

text \<open>
  Claim C4, as amended. When the manifest of a folder is reachable, every entry that
  \<open>getTextFilesFromFolder\<close> returns is either an entry of the manifest whose path is not
  excluded (compared without regard to case it contains none of "readme",
  "manifest", "license", "changelog", "contributing", and it ends with ".txt"), or
  the hardcoded sample entry of the folder, which is returned when no entry of the
  manifest is left and which the filter never sees. When some entry is left, the
  result is exactly the entries that are not excluded, in the order of the manifest.
  An entry with the path "./docs/README.txt" is never returned, whatever the folder
  and the manifest. On the stories page, whose folder is fixed, no listed record has
  an excluded path at all.
\<close>

theorem listing_filter:
  "(\<forall>m es. spec_reachableManifest env folder = Some m \<and> textFiles m = Some es \<longrightarrow>
      (\<forall>e \<in> set (getTextFilesFromFolder env folder).
          e \<in> set (knownTextFiles folder) \<or> (e \<in> set es \<and> \<not> spec_excluded (path e)))
      \<and> (filter (\<lambda>e. \<not> spec_excluded (path e)) es \<noteq> [] \<longrightarrow>
           getTextFilesFromFolder env folder = filter (\<lambda>e. \<not> spec_excluded (path e)) es))
   \<and> (\<forall>e \<in> set (getTextFilesFromFolder env folder). path e \<noteq> ''./docs/README.txt'')
   \<and> (\<forall>r \<in> set (stories (loadStories env st)).
         \<not> spec_excluded (path r) \<and> path r \<noteq> ''./docs/README.txt'')"
proof (intro conjI allI impI ballI)
  fix m es e
  assume "spec_reachableManifest env folder = Some m \<and> textFiles m = Some es"
    and "e \<in> set (getTextFilesFromFolder env folder)"
  then show "e \<in> set (knownTextFiles folder) \<or> (e \<in> set es \<and> \<not> spec_excluded (path e))"
    using getTextFilesFromFolder_members [of e env folder] by auto
next
  fix m es
  assume "spec_reachableManifest env folder = Some m \<and> textFiles m = Some es"
    and "filter (\<lambda>e. \<not> spec_excluded (path e)) es \<noteq> []"
  then show "getTextFilesFromFolder env folder = filter (\<lambda>e. \<not> spec_excluded (path e)) es"
    by (auto simp: getTextFilesFromFolder_spec split: list.splits)
next
  fix e
  assume "e \<in> set (getTextFilesFromFolder env folder)"
  then show "path e \<noteq> ''./docs/README.txt''"
    using getTextFilesFromFolder_members [of e env folder] excluded_readme
      fallback_not_readme [of folder]
    by (auto simp: knownTextFiles_def)
next
  fix r
  assume "r \<in> set (stories (loadStories env st))"
  then obtain e u where e: "e \<in> set (getTextFilesFromFolder env ''./src/StoryTxt/'')"
    and r: "getFileInfo env (path e) = Success r u"
    by (auto simp: stories_member)
  from r have "path r = path e" by (rule getFileInfo_path)
  with deployed_entries_ok [OF e] show "\<not> spec_excluded (path r)" by simp
  with excluded_readme show "path r \<noteq> ''./docs/README.txt''" by auto
qed

lemma readmeFolder_manifest:
  "spec_reachableManifest readmeFolderEnv ''./readme/'' =
     Some \<lparr>textFiles = Some [readmeFolderEntry,
               \<lparr>path = ''./readme/story.txt'', title = ''Story'', info = ''a story''\<rparr>]\<rparr>"
  by (simp add: spec_reachableManifest_def readmeFolderEnv_def okResponse_def)

lemma readmeFolder_excluded:
  "spec_excluded ''./readme/example.txt''" "spec_excluded ''./readme/story.txt''"
proof -
  have "\<not> isStoryFile \<lparr>path = ''./readme/example.txt'', title = [], info = []\<rparr>"
    "\<not> isStoryFile \<lparr>path = ''./readme/story.txt'', title = [], info = []\<rparr>"
    by (simp_all add: isStoryFile_def toLowerCase_def toLowerChar_ascii)
  then show "spec_excluded ''./readme/example.txt''" "spec_excluded ''./readme/story.txt''"
    by (simp_all add: isStoryFile_spec)
qed

text \<open>
  The claim as first stated fails where the folder itself carries an administrative
  word: the manifest of "./readme/" is reachable and lists the sample document
  "./readme/example.txt", whose path contains "readme"; the filter drops every entry,
  and the scan returns the hardcoded sample entry, which is that very entry.
\<close>

theorem listing_filter_counterexample:
  "spec_reachableManifest readmeFolderEnv ''./readme/'' =
     Some \<lparr>textFiles = Some [readmeFolderEntry,
               \<lparr>path = ''./readme/story.txt'', title = ''Story'', info = ''a story''\<rparr>]\<rparr>
   \<and> path readmeFolderEntry = ''./readme/example.txt''
   \<and> spec_excluded (path readmeFolderEntry)
   \<and> getTextFilesFromFolder readmeFolderEnv ''./readme/'' = [readmeFolderEntry]
   \<and> scanTextFiles readmeFolderEnv ''./readme/'' =
       Success \<lparr>folderPath = ''./readme/'', totalFiles = 1, files = [readmeFolderEntry],
                 scanTimestamp = ''2024-01-01T00:00:00.000Z''\<rparr>
               \<lparr>scanMethod = ''folder-scan'', environment = ''browser''\<rparr>"
proof -
  have g: "getTextFilesFromFolder readmeFolderEnv ''./readme/'' = [readmeFolderEntry]"
    by (simp add: getTextFilesFromFolder_spec readmeFolder_manifest readmeFolder_excluded
        readmeFolderEntry_def knownTextFiles_def)
  have s: "scanTextFiles readmeFolderEnv ''./readme/'' =
       Success \<lparr>folderPath = ''./readme/'', totalFiles = 1, files = [readmeFolderEntry],
                 scanTimestamp = ''2024-01-01T00:00:00.000Z''\<rparr>
               \<lparr>scanMethod = ''folder-scan'', environment = ''browser''\<rparr>"
    unfolding scanTextFiles_def
    by (simp add: endsWith_def g) (simp add: readmeFolderEnv_def)
  show ?thesis
    using g s readmeFolder_manifest readmeFolder_excluded(1)
    by (simp add: readmeFolderEntry_def)
qed

text \<open>The sample folder of the stories page.\<close>

lemma storiesEnv_manifest:
  "spec_reachableManifest storiesEnv ''./src/StoryTxt/'' =
     Some \<lparr>textFiles = Some [entryOne, entryTwo, entryThree]\<rparr>"
  by (simp add: spec_reachableManifest_def storiesEnv_def okResponse_def)

lemma storiesEnv_not_excluded:
  "\<not> spec_excluded (path entryOne)" "\<not> spec_excluded (path entryTwo)"
  "\<not> spec_excluded (path entryThree)"
proof -
  have "isStoryFile entryOne" "isStoryFile entryTwo" "isStoryFile entryThree"
    by (simp_all add: isStoryFile_def entryOne_def entryTwo_def entryThree_def endsWith_def
        toLowerCase_def toLowerChar_ascii)
  then show "\<not> spec_excluded (path entryOne)" "\<not> spec_excluded (path entryTwo)"
    "\<not> spec_excluded (path entryThree)"
    by (simp_all add: isStoryFile_spec)
qed

lemma storiesEnv_fetched:
  "spec_fetched storiesEnv (path entryOne) = Some ''The First\<newline>line two''"
  "spec_fetched storiesEnv (path entryTwo) = None"
  "spec_fetched storiesEnv (path entryThree) = Some ''third, on 2024-01-01''"
  by (simp_all add: spec_fetched_def storiesEnv_def entryOne_def entryTwo_def entryThree_def
      okResponse_def notFound_def)

text \<open>The amended claim at the sample folder, whose three entries all pass the filter.\<close>

theorem listing_filter_witness:
  "spec_reachableManifest storiesEnv ''./src/StoryTxt/''
       = Some \<lparr>textFiles = Some [entryOne, entryTwo, entryThree]\<rparr>
   \<and> filter (\<lambda>e. \<not> spec_excluded (path e)) [entryOne, entryTwo, entryThree]
       = [entryOne, entryTwo, entryThree]
   \<and> getTextFilesFromFolder storiesEnv ''./src/StoryTxt/'' = [entryOne, entryTwo, entryThree]
   \<and> path entryOne \<noteq> ''./docs/README.txt''"
proof -
  have f: "filter (\<lambda>e. \<not> spec_excluded (path e)) [entryOne, entryTwo, entryThree]
       = [entryOne, entryTwo, entryThree]"
    by (simp add: storiesEnv_not_excluded)
  have m: "spec_reachableManifest storiesEnv ''./src/StoryTxt/''
         = Some \<lparr>textFiles = Some [entryOne, entryTwo, entryThree]\<rparr>
       \<and> textFiles \<lparr>textFiles = Some [entryOne, entryTwo, entryThree]\<rparr>
           = Some [entryOne, entryTwo, entryThree]"
    by (simp add: storiesEnv_manifest)
  note t = listing_filter [of storiesEnv "''./src/StoryTxt/''" initialState]
  from t m f have g: "getTextFilesFromFolder storiesEnv ''./src/StoryTxt/''
      = [entryOne, entryTwo, entryThree]"
    by (metis list.distinct(1))
  from t g have "path entryOne \<noteq> ''./docs/README.txt''"
    by (metis list.set_intros(1))
  with m f g show ?thesis by blast
qed

section \<open>Partial failure of a listing\<close>

text \<open>
  Claim C5. A listing never fails as a whole: \<open>loadStories\<close> ends with no error and with
  the loading flag cleared. The records it keeps are those of the entries whose
  content could be fetched, in the order of the entries, so an entry whose fetch fails
  is left out and no other entry is: every entry whose fetch succeeds has its record
  in the list. With a reachable manifest of three entries that pass the filter, where
  the fetch of the second fails and the other two succeed, the list is exactly the
  record of the first followed by the record of the third.
\<close>

theorem loadStories_partial_failure:
  "StoriesState.error (loadStories env st) = None
   \<and> \<not> loading (loadStories env st)
   \<and> map path (stories (loadStories env st))
       = filter (\<lambda>p. spec_fetched env p \<noteq> None)
           (map path (getTextFilesFromFolder env ''./src/StoryTxt/''))
   \<and> (\<forall>e \<in> set (getTextFilesFromFolder env ''./src/StoryTxt/'').
         spec_fetched env (path e) \<noteq> None \<longrightarrow>
           (\<exists>r. getFileInfo env (path e) = Success r ()
                \<and> r \<in> set (stories (loadStories env st))))
   \<and> (\<forall>m e1 e2 e3.
         spec_reachableManifest env ''./src/StoryTxt/'' = Some m
         \<and> textFiles m = Some [e1, e2, e3]
         \<and> \<not> spec_excluded (path e1) \<and> \<not> spec_excluded (path e2) \<and> \<not> spec_excluded (path e3)
         \<and> spec_fetched env (path e1) \<noteq> None
         \<and> spec_fetched env (path e2) = None
         \<and> spec_fetched env (path e3) \<noteq> None
         \<longrightarrow> (\<exists>r1 r3. stories (loadStories env st) = [r1, r3]
                \<and> getFileInfo env (path e1) = Success r1 ()
                \<and> getFileInfo env (path e3) = Success r3 ()))"
proof (intro conjI ballI allI impI)
  show "StoriesState.error (loadStories env st) = None" by (simp add: loadStories_spec)
  show "\<not> loading (loadStories env st)" by (simp add: loadStories_spec)
  show "map path (stories (loadStories env st))
       = filter (\<lambda>p. spec_fetched env p \<noteq> None)
           (map path (getTextFilesFromFolder env ''./src/StoryTxt/''))"
    unfolding loadStories_stories
    by (rule stories_paths) (simp add: deployed_entries_ok)
next
  fix e
  assume e: "e \<in> set (getTextFilesFromFolder env ''./src/StoryTxt/'')"
    and f: "spec_fetched env (path e) \<noteq> None"
  from f obtain c where c: "spec_fetched env (path e) = Some c" by auto
  from getFileInfo_fetched [OF _ _ c] not_excluded_txt [OF deployed_entries_ok [OF e]]
  obtain r where r: "getFileInfo env (path e) = Success r ()" by blast
  with e have "r \<in> set (stories (loadStories env st))" by (auto simp: stories_member)
  with r show "\<exists>r. getFileInfo env (path e) = Success r () \<and> r \<in> set (stories (loadStories env st))"
    by blast
next
  fix m e1 e2 e3
  assume a: "spec_reachableManifest env ''./src/StoryTxt/'' = Some m
         \<and> textFiles m = Some [e1, e2, e3]
         \<and> \<not> spec_excluded (path e1) \<and> \<not> spec_excluded (path e2) \<and> \<not> spec_excluded (path e3)
         \<and> spec_fetched env (path e1) \<noteq> None
         \<and> spec_fetched env (path e2) = None
         \<and> spec_fetched env (path e3) \<noteq> None"
  then have entries: "getTextFilesFromFolder env ''./src/StoryTxt/'' = [e1, e2, e3]"
    by (simp add: getTextFilesFromFolder_spec)
  from a obtain c1 c3 where c: "spec_fetched env (path e1) = Some c1"
    "spec_fetched env (path e3) = Some c3" by auto
  from a getFileInfo_fetched [OF _ _ c(1)] not_excluded_txt [of "path e1"]
  obtain r1 where r1: "getFileInfo env (path e1) = Success r1 ()" by blast
  from a getFileInfo_fetched [OF _ _ c(2)] not_excluded_txt [of "path e3"]
  obtain r3 where r3: "getFileInfo env (path e3) = Success r3 ()" by blast
  from a getFileInfo_not_fetched [of env "path e2"]
  obtain x where r2: "getFileInfo env (path e2) = Failure x" by blast
  have "stories (loadStories env st) = [r1, r3]"
    by (simp add: loadStories_stories entries r1 r2 r3)
  with r1 r3 show "\<exists>r1 r3. stories (loadStories env st) = [r1, r3]
                \<and> getFileInfo env (path e1) = Success r1 ()
                \<and> getFileInfo env (path e3) = Success r3 ()" by blast
qed

text \<open>The three documents of the sample folder, the second of which answers 404.\<close>

theorem loadStories_partial_failure_witness:
  "spec_reachableManifest storiesEnv ''./src/StoryTxt/''
       = Some \<lparr>textFiles = Some [entryOne, entryTwo, entryThree]\<rparr>
   \<and> \<not> spec_excluded (path entryOne) \<and> \<not> spec_excluded (path entryTwo)
   \<and> \<not> spec_excluded (path entryThree)
   \<and> spec_fetched storiesEnv (path entryOne) \<noteq> None
   \<and> spec_fetched storiesEnv (path entryTwo) = None
   \<and> spec_fetched storiesEnv (path entryThree) \<noteq> None
   \<and> (\<exists>r1 r3. stories (loadStories storiesEnv initialState) = [r1, r3]
          \<and> getFileInfo storiesEnv (path entryOne) = Success r1 ()
          \<and> getFileInfo storiesEnv (path entryThree) = Success r3 ())
   \<and> StoriesState.error (loadStories storiesEnv initialState) = None
   \<and> map path (stories (loadStories storiesEnv initialState))
        = [''./src/StoryTxt/one.txt'', ''./src/StoryTxt/three.txt'']"
proof -
  note t = loadStories_partial_failure [of storiesEnv initialState]
  have h: "spec_reachableManifest storiesEnv ''./src/StoryTxt/''
         = Some \<lparr>textFiles = Some [entryOne, entryTwo, entryThree]\<rparr>
       \<and> textFiles \<lparr>textFiles = Some [entryOne, entryTwo, entryThree]\<rparr>
           = Some [entryOne, entryTwo, entryThree]
       \<and> \<not> spec_excluded (path entryOne) \<and> \<not> spec_excluded (path entryTwo)
       \<and> \<not> spec_excluded (path entryThree)
       \<and> spec_fetched storiesEnv (path entryOne) \<noteq> None
       \<and> spec_fetched storiesEnv (path entryTwo) = None
       \<and> spec_fetched storiesEnv (path entryThree) \<noteq> None"
    by (simp add: storiesEnv_manifest storiesEnv_not_excluded storiesEnv_fetched)
  from t h have two: "\<exists>r1 r3. stories (loadStories storiesEnv initialState) = [r1, r3]
          \<and> getFileInfo storiesEnv (path entryOne) = Success r1 ()
          \<and> getFileInfo storiesEnv (path entryThree) = Success r3 ()"
    by blast
  from t have err: "StoriesState.error (loadStories storiesEnv initialState) = None" by blast
  from two have paths: "map path (stories (loadStories storiesEnv initialState))
        = [''./src/StoryTxt/one.txt'', ''./src/StoryTxt/three.txt'']"
    by (auto dest!: getFileInfo_path simp: entryOne_def entryThree_def)
  from h two err paths show ?thesis by blast
qed

section \<open>The fallback for a manifest that cannot be read\<close>

lemma noManifest_unavailable: "spec_manifestUnavailable noManifestEnv ''./src/StoryTxt/''"
  by (simp add: spec_manifestUnavailable_def noManifestEnv_def notFound_def)

lemma unavailable_not_reachable:
  "spec_manifestUnavailable env folder \<Longrightarrow> spec_reachableManifest env folder = None"
  by (auto simp: spec_manifestUnavailable_def spec_reachableManifest_def split: sum.splits)

lemma fileName_example:
  assumes "suffix ''/'' nf"
  shows "replaceFirst (last (split (nf @ ''example.txt'') CHR ''/'')) ''.txt'' [] = ''example''"
proof -
  from assms obtain a where "nf = a @ ''/''" by (auto simp: suffix_def)
  then have "last (split (nf @ ''example.txt'') CHR ''/'') = ''example.txt''"
    using last_split_append [of "CHR ''/''" "''example.txt''" a] by simp
  then show ?thesis by simp
qed

lemma getFileInfo_fileName_example:
  assumes "suffix ''/'' nf" and "getFileInfo env (nf @ ''example.txt'') = Success r u"
  shows "fileName r = ''example''"
proof -
  from getFileInfo_Success_D [OF assms(2)] obtain c where
    "spec_fetched env (nf @ ''example.txt'') = Some c"
    and "endsWith (toLowerCase (nf @ ''example.txt'')) ''.txt''" by auto
  from getFileInfo_fetched [OF _ this(2) this(1)] assms(2) fileName_example [OF assms(1)]
  show ?thesis by auto
qed

text \<open>
  Claim C6. When the manifest of a folder is unavailable (its fetch throws or answers
  with a response that is not ok), \<open>getTextFilesFromFolder\<close> returns the hardcoded list:
  exactly one entry, the sample document at the folder path followed by
  "example.txt". A scan of a non-empty folder path then succeeds with that single
  entry under the normalised path, and every record made from the entry has the file
  name "example". On the stories page the listing is that one record when the sample
  document can be fetched, and empty when it cannot.
\<close>

theorem manifest_unavailable_fallback:
  "(spec_manifestUnavailable env folder \<longrightarrow>
      getTextFilesFromFolder env folder =
        [\<lparr>path = folder @ ''example.txt'', title = ''Example Text File'',
          info = ''Sample text file for testing the TextFileReaderService''\<rparr>])
   \<and> (folder \<noteq> [] \<and> nf = (if suffix ''/'' folder then folder else folder @ ''/'')
        \<and> spec_manifestUnavailable env nf \<longrightarrow>
        (\<exists>d md. scanTextFiles env folder = Success d md
           \<and> totalFiles d = 1
           \<and> files d = [\<lparr>path = nf @ ''example.txt'', title = ''Example Text File'',
                 info = ''Sample text file for testing the TextFileReaderService''\<rparr>])
        \<and> (\<forall>r u. getFileInfo env (nf @ ''example.txt'') = Success r u \<longrightarrow> fileName r = ''example''))
   \<and> (spec_manifestUnavailable env ''./src/StoryTxt/'' \<longrightarrow>
        (spec_fetched env ''./src/StoryTxt/example.txt'' = None \<longrightarrow>
           stories (loadStories env st) = [])
        \<and> (spec_fetched env ''./src/StoryTxt/example.txt'' \<noteq> None \<longrightarrow>
           (\<exists>r. stories (loadStories env st) = [r] \<and> fileName r = ''example''
                \<and> path r = ''./src/StoryTxt/example.txt'')))"
proof (intro conjI impI allI)
  assume "spec_manifestUnavailable env folder"
  then show "getTextFilesFromFolder env folder =
        [\<lparr>path = folder @ ''example.txt'', title = ''Example Text File'',
          info = ''Sample text file for testing the TextFileReaderService''\<rparr>]"
    by (simp add: getTextFilesFromFolder_spec unavailable_not_reachable knownTextFiles_def)
next
  assume a: "folder \<noteq> [] \<and> nf = (if suffix ''/'' folder then folder else folder @ ''/'')
        \<and> spec_manifestUnavailable env nf"
  then show "\<exists>d md. scanTextFiles env folder = Success d md
           \<and> totalFiles d = 1
           \<and> files d = [\<lparr>path = nf @ ''example.txt'', title = ''Example Text File'',
                 info = ''Sample text file for testing the TextFileReaderService''\<rparr>]"
    unfolding scanTextFiles_def
    by (auto simp: endsWith_suffix getTextFilesFromFolder_spec unavailable_not_reachable
        knownTextFiles_def Let_def simp del: endsWith_def)
next
  fix r u
  assume a: "folder \<noteq> [] \<and> nf = (if suffix ''/'' folder then folder else folder @ ''/'')
        \<and> spec_manifestUnavailable env nf"
    and g: "getFileInfo env (nf @ ''example.txt'') = Success r u"
  from a have "suffix ''/'' nf" by (auto simp: suffix_def)
  then show "fileName r = ''example''" using g by (rule getFileInfo_fileName_example)
next
  assume u: "spec_manifestUnavailable env ''./src/StoryTxt/''"
    and n: "spec_fetched env ''./src/StoryTxt/example.txt'' = None"
  from getFileInfo_not_fetched [OF n] obtain e where
    "getFileInfo env ''./src/StoryTxt/example.txt'' = Failure e" by blast
  with u show "stories (loadStories env st) = []"
    by (simp add: loadStories_stories getTextFilesFromFolder_spec unavailable_not_reachable
        knownTextFiles_def)
next
  assume u: "spec_manifestUnavailable env ''./src/StoryTxt/''"
    and n: "spec_fetched env ''./src/StoryTxt/example.txt'' \<noteq> None"
  then obtain c where c: "spec_fetched env ''./src/StoryTxt/example.txt'' = Some c" by auto
  from getFileInfo_fetched [OF _ _ c] not_excluded_txt [OF deployed_fallback_ok]
  obtain r where r: "getFileInfo env ''./src/StoryTxt/example.txt'' = Success r ()" by blast
  have "suffix ''/'' ''./src/StoryTxt/''" by (simp add: suffix_def)
  from getFileInfo_fileName_example [OF this] r
  have f: "fileName r = ''example''" by simp
  from r have p: "path r = ''./src/StoryTxt/example.txt''" by (rule getFileInfo_path)
  from u r have "stories (loadStories env st) = [r]"
    by (simp add: loadStories_stories getTextFilesFromFolder_spec unavailable_not_reachable
        knownTextFiles_def)
  with f p show "\<exists>r. stories (loadStories env st) = [r] \<and> fileName r = ''example''
                \<and> path r = ''./src/StoryTxt/example.txt''" by blast
qed

text \<open>A folder without manifest, with and without its sample document.\<close>

theorem manifest_unavailable_fallback_witness:
  "spec_manifestUnavailable noManifestEnv ''./src/StoryTxt/''
   \<and> spec_fetched noManifestEnv ''./src/StoryTxt/example.txt'' \<noteq> None
   \<and> getTextFilesFromFolder noManifestEnv ''./src/StoryTxt/'' =
        [\<lparr>path = ''./src/StoryTxt/example.txt'', title = ''Example Text File'',
          info = ''Sample text file for testing the TextFileReaderService''\<rparr>]
   \<and> (\<exists>r. stories (loadStories noManifestEnv initialState) = [r] \<and> fileName r = ''example''
          \<and> path r = ''./src/StoryTxt/example.txt'')
   \<and> spec_manifestUnavailable offlineEnv ''./src/StoryTxt/''
   \<and> spec_fetched offlineEnv ''./src/StoryTxt/example.txt'' = None
   \<and> stories (loadStories offlineEnv initialState) = []"
proof -
  have f: "spec_fetched noManifestEnv ''./src/StoryTxt/example.txt'' \<noteq> None"
    by (simp add: spec_fetched_def noManifestEnv_def okResponse_def)
  have o: "spec_manifestUnavailable offlineEnv ''./src/StoryTxt/''"
    "spec_fetched offlineEnv ''./src/StoryTxt/example.txt'' = None"
    by (simp_all add: spec_manifestUnavailable_def spec_fetched_def offlineEnv_def)
  from manifest_unavailable_fallback [of noManifestEnv "''./src/StoryTxt/''" "[]" initialState]
    noManifest_unavailable f
  have a: "getTextFilesFromFolder noManifestEnv ''./src/StoryTxt/'' =
        [\<lparr>path = ''./src/StoryTxt/example.txt'', title = ''Example Text File'',
          info = ''Sample text file for testing the TextFileReaderService''\<rparr>]"
    and b: "\<exists>r. stories (loadStories noManifestEnv initialState) = [r] \<and> fileName r = ''example''
          \<and> path r = ''./src/StoryTxt/example.txt''"
    by simp_all
  from manifest_unavailable_fallback [of offlineEnv "''./src/StoryTxt/''" "[]" initialState] o
  have c: "stories (loadStories offlineEnv initialState) = []" by simp
  from noManifest_unavailable f a b o c show ?thesis by blast
qed

section \<open>Paths with the wrong extension\<close>

text \<open>
  Claim C7, as amended. For every non-empty path that does not end with ".txt"
  (compared without regard to case), \<open>getFileInfo\<close> returns the failure result whose
  message is "File must have .txt extension", of kind \<open>InvalidExtension\<close>, with the
  time of the call. For every path that does not end with ".txt", the empty one
  included, the result is a failure that carries a message and the time, and it is
  never a success: nothing is thrown past the operation. "notes.md" is such a path.
\<close>

theorem getFileInfo_wrong_extension:
  "(p \<noteq> [] \<and> \<not> suffix ''.txt'' (toLowerCase p) \<longrightarrow>
      getFileInfo env p =
        Failure \<lparr>ErrorInfo.message = ''File must have .txt extension'', type = ''Error'',
                  timestamp = now env\<rparr>
      \<and> spec_kind \<lparr>ErrorInfo.message = ''File must have .txt extension'', type = ''Error'',
                  timestamp = now env\<rparr> = Some InvalidExtension)
   \<and> (\<not> suffix ''.txt'' (toLowerCase p) \<longrightarrow>
        (\<exists>e. getFileInfo env p = Failure e \<and> ErrorInfo.message e \<noteq> []
             \<and> ErrorInfo.timestamp e = now env)
        \<and> (\<forall>r u. getFileInfo env p \<noteq> Success r u))
   \<and> getFileInfo env ''notes.md'' =
        Failure \<lparr>ErrorInfo.message = ''File must have .txt extension'', type = ''Error'',
                  timestamp = now env\<rparr>"
  by (auto simp: getFileInfo_def endsWith_suffix caught_def newError_def spec_kind_def
      toLowerCase_def toLowerChar_ascii suffix_def
      simp del: endsWith_def)


text \<open>A path whose ".TXT" is not at the end.\<close>

theorem getFileInfo_wrong_extension_witness:
  "''Story.TXT.bak'' \<noteq> [] \<and> \<not> suffix ''.txt'' (toLowerCase ''Story.TXT.bak'')
   \<and> getFileInfo storiesEnv ''Story.TXT.bak'' =
        Failure \<lparr>ErrorInfo.message = ''File must have .txt extension'', type = ''Error'',
                  timestamp = ''2024-01-01T00:00:00.000Z''\<rparr>
   \<and> (\<forall>r u. getFileInfo storiesEnv ''Story.TXT.bak'' \<noteq> Success r u)"
proof -
  have h: "''Story.TXT.bak'' \<noteq> [] \<and> \<not> suffix ''.txt'' (toLowerCase ''Story.TXT.bak'')"
    unfolding endsWith_suffix [symmetric]
    by (simp add: endsWith_def toLowerCase_def toLowerChar_ascii)
  have n: "now storiesEnv = ''2024-01-01T00:00:00.000Z''" by (simp add: storiesEnv_def)
  from getFileInfo_wrong_extension [of "''Story.TXT.bak''" storiesEnv] h
  have "getFileInfo storiesEnv ''Story.TXT.bak'' =
        Failure \<lparr>ErrorInfo.message = ''File must have .txt extension'', type = ''Error'',
                  timestamp = now storiesEnv\<rparr>"
    and "\<forall>r u. getFileInfo storiesEnv ''Story.TXT.bak'' \<noteq> Success r u"
    by blast+
  with h n show ?thesis by simp
qed

text \<open>
  The claim as first stated fails at the empty path: it does not end with ".txt", and
  the check for an invalid path comes first, so the failure is of kind \<open>InvalidInput\<close>.
\<close>

theorem getFileInfo_empty_path_counterexample:
  "\<not> suffix ''.txt'' (toLowerCase [])
   \<and> getFileInfo offlineEnv [] =
        Failure \<lparr>ErrorInfo.message = ''Invalid file path provided'', type = ''Error'',
                  timestamp = ''2024-01-01T00:00:00.000Z''\<rparr>
   \<and> spec_kind \<lparr>ErrorInfo.message = ''Invalid file path provided'', type = ''Error'',
                  timestamp = ''2024-01-01T00:00:00.000Z''\<rparr> = Some InvalidInput
   \<and> spec_kind \<lparr>ErrorInfo.message = ''Invalid file path provided'', type = ''Error'',
                  timestamp = ''2024-01-01T00:00:00.000Z''\<rparr> \<noteq> Some InvalidExtension"
  by (simp add: getFileInfo_def caught_def newError_def spec_kind_def toLowerCase_def
      offlineEnv_def)

section \<open>Invariants of the records\<close>

lemma readTextFile_fetched:
  assumes "p \<noteq> []" and "endsWith (toLowerCase p) ''.txt''" and "fetch env p = Inr resp"
    and "ok resp"
  shows "readTextFile env p =
     Success
       \<lparr>TextFileData.content = body resp,
        filePath = p,
        fileName = Some (last (split p CHR ''/'')),
        fileSize = length (body resp),
        lineCount = spec_lineCount (body resp),
        wordCount = spec_wordCount (body resp),
        characterCount = length (body resp),
        timestamp = now env\<rparr>
       \<lparr>encoding = ''UTF-8'', mimeType = ''text/plain'',
        lastModified = orNull (lastModifiedHeader resp)\<rparr>"
  using assms unfolding readTextFile_def
  by (simp add: Let_def pop_split wordCount_spec_ne length_split spec_lineCount_def)

lemma readTextFile_Success_D:
  assumes "readTextFile env p = Success d m"
  shows "p \<noteq> [] \<and> endsWith (toLowerCase p) ''.txt''
     \<and> (\<exists>resp. fetch env p = Inr resp \<and> ok resp)"
  using assms by (auto simp: readTextFile_def split: if_splits sum.splits)

text \<open>
  Claim C8, as amended. A successful \<open>getFileInfo\<close> comes from a successful fetch, and
  its record has the fetched content, a character count equal to the file size, both
  equal to the length of the content, a line count of at least 1 (one more than the
  number of newlines), a word count of at least 0 (the number of words of the
  content), and as first line the trimmed first newline-separated line of the
  content. A successful \<open>readTextFile\<close> satisfies the same for content, file size,
  character count, line count and word count; its data has no first line: the
  property reads as \<open>undefined\<close>.
\<close>

theorem record_invariants:
  "(getFileInfo env p = Success r u \<longrightarrow>
      (\<exists>c. spec_fetched env p = Some c
         \<and> DocumentRecord.content r = c
         \<and> DocumentRecord.characterCount r = DocumentRecord.fileSize r
         \<and> DocumentRecord.fileSize r = length c
         \<and> 1 \<le> DocumentRecord.lineCount r
         \<and> DocumentRecord.lineCount r = spec_lineCount c
         \<and> 0 \<le> DocumentRecord.wordCount r
         \<and> DocumentRecord.wordCount r = spec_wordCount c
         \<and> firstLine r = spec_firstLine c))
   \<and> (readTextFile env p = Success d m \<longrightarrow>
      (\<exists>c. spec_fetched env p = Some c
         \<and> TextFileData.content d = c
         \<and> TextFileData.characterCount d = TextFileData.fileSize d
         \<and> TextFileData.fileSize d = length c
         \<and> 1 \<le> TextFileData.lineCount d
         \<and> TextFileData.lineCount d = spec_lineCount c
         \<and> 0 \<le> TextFileData.wordCount d
         \<and> TextFileData.wordCount d = spec_wordCount c)
      \<and> textFileDataProperty d ''firstLine'' = JsUndefined)"
proof (intro conjI impI)
  assume g: "getFileInfo env p = Success r u"
  from getFileInfo_Success_D [OF g] obtain c where
    c: "spec_fetched env p = Some c" and p: "p \<noteq> []" "endsWith (toLowerCase p) ''.txt''"
    by auto
  from getFileInfo_fetched [OF p c] g c
  show "\<exists>c. spec_fetched env p = Some c
         \<and> DocumentRecord.content r = c
         \<and> DocumentRecord.characterCount r = DocumentRecord.fileSize r
         \<and> DocumentRecord.fileSize r = length c
         \<and> 1 \<le> DocumentRecord.lineCount r
         \<and> DocumentRecord.lineCount r = spec_lineCount c
         \<and> 0 \<le> DocumentRecord.wordCount r
         \<and> DocumentRecord.wordCount r = spec_wordCount c
         \<and> firstLine r = spec_firstLine c"
    by (auto simp: spec_lineCount_def)
next
  assume g: "readTextFile env p = Success d m"
  from readTextFile_Success_D [OF g] obtain resp where
    resp: "fetch env p = Inr resp" "ok resp" and p: "p \<noteq> []" "endsWith (toLowerCase p) ''.txt''"
    by auto
  from resp have c: "spec_fetched env p = Some (body resp)" by (simp add: spec_fetched_def)
  from readTextFile_fetched [OF p resp] g c
  show "\<exists>c. spec_fetched env p = Some c
         \<and> TextFileData.content d = c
         \<and> TextFileData.characterCount d = TextFileData.fileSize d
         \<and> TextFileData.fileSize d = length c
         \<and> 1 \<le> TextFileData.lineCount d
         \<and> TextFileData.lineCount d = spec_lineCount c
         \<and> 0 \<le> TextFileData.wordCount d
         \<and> TextFileData.wordCount d = spec_wordCount c"
    by (auto simp: spec_lineCount_def)
next
  show "textFileDataProperty d ''firstLine'' = JsUndefined"
    by (simp add: textFileDataProperty_def)
qed

text \<open>
  The first document of the sample folder, read through both services, and a
  document whose first line starts with a no-break space, which trimming removes
  and which separates words.
\<close>

theorem record_invariants_witness:
  "(\<exists>r. getFileInfo storiesEnv ''./src/StoryTxt/one.txt'' = Success r ()
        \<and> DocumentRecord.content r = ''The First\<newline>line two''
        \<and> DocumentRecord.characterCount r = 18 \<and> DocumentRecord.fileSize r = 18
        \<and> DocumentRecord.lineCount r = 2 \<and> DocumentRecord.wordCount r = 4
        \<and> firstLine r = ''The First'')
   \<and> (\<exists>d m. readTextFile storiesEnv ''./src/StoryTxt/one.txt'' = Success d m
        \<and> TextFileData.content d = ''The First\<newline>line two''
        \<and> TextFileData.characterCount d = 18 \<and> TextFileData.fileSize d = 18
        \<and> TextFileData.lineCount d = 2 \<and> TextFileData.wordCount d = 4
        \<and> textFileDataProperty d ''firstLine'' = JsUndefined)
   \<and> (\<exists>r. getFileInfo nbspEnv ''./src/StoryTxt/nbsp.txt'' = Success r ()
        \<and> DocumentRecord.content r = [CHR 0xA0] @ ''Title'' @ [CHR 0xA0] @ ''here\<newline>more''
        \<and> DocumentRecord.characterCount r = 16 \<and> DocumentRecord.lineCount r = 2
        \<and> DocumentRecord.wordCount r = 3
        \<and> firstLine r = ''Title'' @ [CHR 0xA0] @ ''here'')"
proof -
  let ?p = "''./src/StoryTxt/one.txt''" and ?c = "''The First\<newline>line two''"
  have f: "spec_fetched storiesEnv ?p = Some ?c"
    using storiesEnv_fetched(1) by (simp add: entryOne_def)
  have p: "?p \<noteq> []" "endsWith (toLowerCase ?p) ''.txt''"
    using not_excluded_txt [OF storiesEnv_not_excluded(1)] by (simp_all add: entryOne_def)
  have vals: "length ?c = 18" "spec_lineCount ?c = 2" "spec_wordCount ?c = 4"
    "spec_firstLine ?c = ''The First''"
    by (simp_all add: spec_lineCount_def spec_wordCount_def spec_firstLine_def newline_def
        isWhiteSpace_def trim_def)
  from getFileInfo_fetched [OF p f] obtain r where
    r: "getFileInfo storiesEnv ?p = Success r ()" by blast
  from record_invariants [of storiesEnv ?p r "()"] r f vals
  have a: "DocumentRecord.content r = ?c
        \<and> DocumentRecord.characterCount r = 18 \<and> DocumentRecord.fileSize r = 18
        \<and> DocumentRecord.lineCount r = 2 \<and> DocumentRecord.wordCount r = 4
        \<and> firstLine r = ''The First''"
    by auto
  have "fetch storiesEnv ?p = Inr (okResponse ?c)" "ok (okResponse ?c)"
    by (simp_all add: storiesEnv_def okResponse_def)
  from readTextFile_fetched [OF p this] obtain d m where
    d: "readTextFile storiesEnv ?p = Success d m" by blast
  from record_invariants [of storiesEnv ?p _ _ d m] d f vals
  have b: "TextFileData.content d = ?c
        \<and> TextFileData.characterCount d = 18 \<and> TextFileData.fileSize d = 18
        \<and> TextFileData.lineCount d = 2 \<and> TextFileData.wordCount d = 4
        \<and> textFileDataProperty d ''firstLine'' = JsUndefined"
    by auto
  let ?q = "''./src/StoryTxt/nbsp.txt''"
  let ?n = "[CHR 0xA0] @ ''Title'' @ [CHR 0xA0] @ ''here\<newline>more''"
  have fq: "spec_fetched nbspEnv ?q = Some ?n"
    by (simp add: spec_fetched_def nbspEnv_def okResponse_def)
  have q: "?q \<noteq> []" "endsWith (toLowerCase ?q) ''.txt''"
    by (simp_all add: endsWith_def toLowerCase_def toLowerChar_ascii)
  have valsq: "length ?n = 16" "spec_lineCount ?n = 2" "spec_wordCount ?n = 3"
    "spec_firstLine ?n = ''Title'' @ [CHR 0xA0] @ ''here''"
    by (simp_all add: spec_lineCount_def spec_wordCount_def spec_firstLine_def newline_def
        isWhiteSpace_def trim_def)
  from getFileInfo_fetched [OF q fq] obtain rq where
    rq: "getFileInfo nbspEnv ?q = Success rq ()" by blast
  from record_invariants [of nbspEnv ?q rq "()"] rq fq valsq
  have c: "DocumentRecord.content rq = ?n
        \<and> DocumentRecord.characterCount rq = 16 \<and> DocumentRecord.lineCount rq = 2
        \<and> DocumentRecord.wordCount rq = 3
        \<and> firstLine rq = ''Title'' @ [CHR 0xA0] @ ''here''"
    by auto
  from r a d b rq c show ?thesis by blast
qed

text \<open>
  The claim as first stated has the first line among the invariants of both services.
  The data of \<open>readTextFile\<close> for the first document of the sample folder has no such
  property: it reads as \<open>undefined\<close>, not as the trimmed first line "The First" of the
  content.
\<close>

theorem readTextFile_firstLine_counterexample:
  "readTextFile storiesEnv ''./src/StoryTxt/one.txt'' =
     Success
       \<lparr>TextFileData.content = ''The First\<newline>line two'',
        filePath = ''./src/StoryTxt/one.txt'',
        fileName = Some ''one.txt'',
        fileSize = 18, lineCount = 2, wordCount = 4, characterCount = 18,
        timestamp = ''2024-01-01T00:00:00.000Z''\<rparr>
       \<lparr>encoding = ''UTF-8'', mimeType = ''text/plain'', lastModified = None\<rparr>
   \<and> spec_firstLine ''The First\<newline>line two'' = ''The First''
   \<and> textFileDataProperty
        \<lparr>TextFileData.content = ''The First\<newline>line two'',
         filePath = ''./src/StoryTxt/one.txt'',
         fileName = Some ''one.txt'',
         fileSize = 18, lineCount = 2, wordCount = 4, characterCount = 18,
         timestamp = ''2024-01-01T00:00:00.000Z''\<rparr> ''firstLine'' = JsUndefined
   \<and> JsUndefined \<noteq> JsString ''The First''"
proof -
  let ?p = "''./src/StoryTxt/one.txt''" and ?c = "''The First\<newline>line two''"
  have p: "?p \<noteq> []" "endsWith (toLowerCase ?p) ''.txt''"
    using not_excluded_txt [OF storiesEnv_not_excluded(1)] by (simp_all add: entryOne_def)
  have resp: "fetch storiesEnv ?p = Inr (okResponse ?c)" "ok (okResponse ?c)"
    by (simp_all add: storiesEnv_def okResponse_def)
  have vals: "length ?c = 18" "spec_lineCount ?c = 2" "spec_wordCount ?c = 4"
    "spec_firstLine ?c = ''The First''"
    by (simp_all add: spec_lineCount_def spec_wordCount_def spec_firstLine_def newline_def
        isWhiteSpace_def trim_def)
  have seg: "last (split ?p CHR ''/'') = ''one.txt''"
    by (simp add: split_def)
  have "readTextFile storiesEnv ?p =
     Success
       \<lparr>TextFileData.content = ?c, filePath = ?p, fileName = Some ''one.txt'',
        fileSize = 18, lineCount = 2, wordCount = 4, characterCount = 18,
        timestamp = ''2024-01-01T00:00:00.000Z''\<rparr>
       \<lparr>encoding = ''UTF-8'', mimeType = ''text/plain'', lastModified = None\<rparr>"
    unfolding readTextFile_fetched [OF p resp]
    by (simp add: okResponse_def vals seg orNull_def storiesEnv_def
        del: One_nat_def)
  then show ?thesis
    by (simp add: vals textFileDataProperty_def)
qed

section \<open>The entry list is never empty\<close>

text \<open>
  Claim C9. \<open>getTextFilesFromFolder\<close> never returns the empty list, whether the manifest
  is reachable or not. When the manifest is reachable and the filter leaves none of
  its entries (or it has none), the result is the hardcoded list with the single
  sample entry of the folder.
\<close>

theorem getTextFilesFromFolder_never_empty:
  "getTextFilesFromFolder env folder \<noteq> []
   \<and> (\<forall>m. spec_reachableManifest env folder = Some m
          \<and> filter (\<lambda>e. \<not> spec_excluded (path e))
               (case textFiles m of None \<Rightarrow> [] | Some es \<Rightarrow> es) = []
        \<longrightarrow> getTextFilesFromFolder env folder =
              [\<lparr>path = folder @ ''example.txt'', title = ''Example Text File'',
                info = ''Sample text file for testing the TextFileReaderService''\<rparr>])"
  by (auto simp: getTextFilesFromFolder_spec knownTextFiles_def split: option.splits list.splits)

text \<open>A reachable manifest that lists a readme and a file that is not a text file.\<close>

theorem getTextFilesFromFolder_never_empty_witness:
  "spec_reachableManifest adminOnlyEnv ''./src/StoryTxt/'' =
     Some \<lparr>textFiles = Some
               [\<lparr>path = ''./docs/README.txt'', title = ''Readme'', info = ''about''\<rparr>,
                \<lparr>path = ''./src/StoryTxt/notes.md'', title = ''Notes'', info = ''notes''\<rparr>]\<rparr>
   \<and> filter (\<lambda>e. \<not> spec_excluded (path e))
         [\<lparr>path = ''./docs/README.txt'', title = ''Readme'', info = ''about''\<rparr>,
          \<lparr>path = ''./src/StoryTxt/notes.md'', title = ''Notes'', info = ''notes''\<rparr>] = []
   \<and> getTextFilesFromFolder adminOnlyEnv ''./src/StoryTxt/'' =
        [\<lparr>path = ''./src/StoryTxt/example.txt'', title = ''Example Text File'',
          info = ''Sample text file for testing the TextFileReaderService''\<rparr>]"
proof -
  have m: "spec_reachableManifest adminOnlyEnv ''./src/StoryTxt/'' =
     Some \<lparr>textFiles = Some
               [\<lparr>path = ''./docs/README.txt'', title = ''Readme'', info = ''about''\<rparr>,
                \<lparr>path = ''./src/StoryTxt/notes.md'', title = ''Notes'', info = ''notes''\<rparr>]\<rparr>"
    by (simp add: spec_reachableManifest_def adminOnlyEnv_def okResponse_def)
  have "\<not> isStoryFile \<lparr>path = ''./src/StoryTxt/notes.md'', title = ''Notes'', info = ''notes''\<rparr>"
    by (simp add: isStoryFile_def endsWith_def toLowerCase_def toLowerChar_ascii)
  then have "spec_excluded ''./src/StoryTxt/notes.md''" by (simp add: isStoryFile_spec)
  with excluded_readme
  have f: "filter (\<lambda>e. \<not> spec_excluded (path e))
         [\<lparr>path = ''./docs/README.txt'', title = ''Readme'', info = ''about''\<rparr>,
          \<lparr>path = ''./src/StoryTxt/notes.md'', title = ''Notes'', info = ''notes''\<rparr>] = []"
    by simp
  from getTextFilesFromFolder_never_empty [of adminOnlyEnv "''./src/StoryTxt/''"] m f
  have "getTextFilesFromFolder adminOnlyEnv ''./src/StoryTxt/'' =
        [\<lparr>path = ''./src/StoryTxt/'' @ ''example.txt'', title = ''Example Text File'',
          info = ''Sample text file for testing the TextFileReaderService''\<rparr>]"
    by simp
  with m f show ?thesis by simp
qed

section \<open>Reading several files\<close>

lemma mapThrowing_class:
  "mapThrowing (callReadTextFile ThisClass env) ps = Inr (map (readTextFile env) ps)"
  by (induction ps) (simp_all add: callReadTextFile_def)

lemma forEachResult_settled:
  "forEachResult (zip (allSettled (map (readTextFile env) ps)) ps) (S, F) = (S', F') \<Longrightarrow>
     S' = S @ map (readTextFile env) (filter (spec_readOk env) ps)
     \<and> map FailedRead.filePath F' = map FailedRead.filePath F @ filter (\<lambda>p. \<not> spec_readOk env p) ps"
proof (induction ps arbitrary: S F)
  case Nil
  then show ?case by (simp add: forEachResult_def allSettled_def)
next
  case (Cons p ps)
  show ?case
  proof (cases "readTextFile env p")
    case (Success d m)
    with Cons.prems have "forEachResult (zip (allSettled (map (readTextFile env) ps)) ps)
        (S @ [Success d m], F) = (S', F')"
      by (simp add: forEachResult_def allSettled_def)
    from Cons.IH [OF this] Success show ?thesis by (simp add: spec_readOk_def)
  next
    case (Failure e)
    with Cons.prems have "forEachResult (zip (allSettled (map (readTextFile env) ps)) ps)
        (S, F @ [\<lparr>FailedRead.filePath = p, error = ErrorInfo.message e\<rparr>]) = (S', F')"
      by (simp add: forEachResult_def allSettled_def)
    from Cons.IH [OF this] Failure show ?thesis by (simp add: spec_readOk_def)
  qed
qed

text \<open>
  Called on the class, \<open>readMultipleTextFiles\<close> succeeds for every array of paths: the
  total is the length of the array, the two counts add up to it, the successful reads
  are the results of the paths that can be read, and the failed reads name the paths
  that cannot, each in the order of the array. Only an argument that is not an array
  fails as a whole.
\<close>

lemma readMultipleTextFiles_on_class:
  "\<exists>d. readMultipleTextFiles ThisClass env (ArrayArg ps) = Success d (now env)
      \<and> MultiReadData.totalFiles d = length ps
      \<and> successfulCount d + failedCount d = MultiReadData.totalFiles d
      \<and> successfulCount d = length (successfulReads d)
      \<and> failedCount d = length (failedReads d)
      \<and> successfulReads d = map (readTextFile env) (filter (spec_readOk env) ps)
      \<and> map FailedRead.filePath (failedReads d) = filter (\<lambda>p. \<not> spec_readOk env p) ps"
proof -
  obtain S F where sf: "forEachResult (zip (allSettled (map (readTextFile env) ps)) ps) ([], []) = (S, F)"
    by (cases "forEachResult (zip (allSettled (map (readTextFile env) ps)) ps) ([], [])") auto
  from forEachResult_settled [OF sf]
  have S: "S = map (readTextFile env) (filter (spec_readOk env) ps)"
    and F: "map FailedRead.filePath F = filter (\<lambda>p. \<not> spec_readOk env p) ps" by simp_all
  have "length S + length F = length ps"
    using sum_length_filter_compl [of "spec_readOk env" ps] arg_cong [OF F, of length]
    by (simp add: S)
  then show ?thesis
    using S F by (simp add: readMultipleTextFiles_def mapThrowing_class sf Let_def)
qed

lemma readMultipleTextFiles_not_array:
  "readMultipleTextFiles this env NotAnArray =
     Failure \<lparr>ErrorInfo.message = ''filePaths must be an array'', type = ''Error'',
               timestamp = now env\<rparr>"
  by (simp add: readMultipleTextFiles_def caught_def newError_def)

text \<open>
  Claim C10 says that for every array of path strings the overall result is a
  success. Called through the exported binding, as the usage notes of the service do
  (\<open>await readMultipleTextFiles(filePaths)\<close>), the method has no \<open>this\<close>: for the array
  of the one path "./a.txt" the callback throws on \<open>this.readTextFile\<close>, the \<open>catch\<close> of
  the method takes the throw, and the overall result is a failure of type TypeError.
\<close>

theorem readMultipleTextFiles_detached:
  "readMultipleTextFiles ThisUndefined env (ArrayArg [''./a.txt'']) =
     Failure \<lparr>ErrorInfo.message =
                 ''Cannot read properties of undefined (reading '' @ [CHR 0x27]
                   @ ''readTextFile'' @ [CHR 0x27] @ '')'',
               type = ''TypeError'', timestamp = now env\<rparr>"
  by (simp add: readMultipleTextFiles_def callReadTextFile_def caught_def typeErrorUndefined_def)

end
